theory Spec2Isabelle
  imports Main "HOL-Library.Word" "HOL-Library.Multiset"
begin

unbundle bit_operations_syntax

section \<open>Go values used by text/v2/gotextfacesource.go\<close>

text \<open>
  A Go \<open>float64\<close> and \<open>float32\<close> are kept as their IEEE 754 bit patterns, a
  \<open>fixed.Int26_6\<close> as the \<open>int32\<close> it is, a Go \<open>string\<close> as its bytes
  (\<open>string\<close>, one \<open>char\<close> per byte), a Go \<open>int\<close> that enters an addition or a
  multiplication as a \<open>64 word\<close> read by \<open>sint\<close>, a pointer as a \<open>nat\<close> address.
\<close>

type_synonym float64 = "64 word"
type_synonym float32 = "32 word"
type_synonym fixed26_6 = "32 word"
type_synonym GID = "32 word"
type_synonym rune = nat
type_synonym pointer = nat

datatype error =
    PanicCopiedByValue
  | PanicIndexOutOfRange
  | PanicNilDereference
  | ErrRead string
  | ErrParse string

subsection \<open>Comparison of floating-point values\<close>

text \<open>
  Go's \<open>==\<close> on \<open>float64\<close>: a NaN equals nothing, itself included; \<open>+0\<close> and
  \<open>-0\<close> are equal; any other two values are equal exactly when their bits are.
  A struct with a \<open>float64\<close> field, used as a map key, is compared this way.
\<close>

definition f64_isNaN :: "float64 \<Rightarrow> bool" where
  "f64_isNaN a \<longleftrightarrow> 0x7FF0000000000000 < (a AND 0x7FFFFFFFFFFFFFFF)"

definition f64_isZero :: "float64 \<Rightarrow> bool" where
  "f64_isZero a \<longleftrightarrow> (a AND 0x7FFFFFFFFFFFFFFF) = 0"

definition f64_eq :: "float64 \<Rightarrow> float64 \<Rightarrow> bool" where
  "f64_eq a b \<longleftrightarrow>
     \<not> f64_isNaN a \<and> \<not> f64_isNaN b \<and> (a = b \<or> (f64_isZero a \<and> f64_isZero b))"

definition f64_positive :: "float64 \<Rightarrow> bool" where
  \<comment> \<open>\<open>0 < a\<close> in Go: not a NaN, sign bit clear, not zero.\<close>
  "f64_positive a \<longleftrightarrow> 0 < a \<and> a \<le> 0x7FF0000000000000"

subsection \<open>UTF-8 decoding as \<open>range\<close> and \<open>[]rune\<close> do it\<close>

text \<open>
  \<open>for i := range text\<close> visits the byte offset at which each rune starts and
  \<open>[]rune(text)\<close> collects the runes. Both decode one rune at a time; a byte that
  starts no valid UTF-8 sequence is the rune U+FFFD of width 1.
\<close>

definition decodeRune :: "nat list \<Rightarrow> rune \<times> nat" where
  "decodeRune bs =
     (case bs of
        [] \<Rightarrow> (0xFFFD, 0)
      | b0 # rest \<Rightarrow>
          if b0 < 0x80 then (b0, 1)
          else if b0 < 0xC2 \<or> 0xF4 < b0 then (0xFFFD, 1)
          else
            let sz = (if b0 < 0xE0 then 2 else if b0 < 0xF0 then 3 else 4 :: nat);
                lo = (if b0 = 0xE0 then 0xA0 else if b0 = 0xF0 then 0x90 else 0x80 :: nat);
                hi = (if b0 = 0xED then 0x9F else if b0 = 0xF4 then 0x8F else 0xBF :: nat)
            in
              if length bs < sz then (0xFFFD, 1)
              else
                let b1 = rest ! 0 in
                if b1 < lo \<or> hi < b1 then (0xFFFD, 1)
                else if sz \<le> 2 then ((b0 mod 0x20) * 0x40 + b1 mod 0x40, 2)
                else
                  let b2 = rest ! 1 in
                  if b2 < 0x80 \<or> 0xBF < b2 then (0xFFFD, 1)
                  else if sz \<le> 3
                  then ((b0 mod 0x10) * 0x1000 + (b1 mod 0x40) * 0x40 + b2 mod 0x40, 3)
                  else
                    let b3 = rest ! 2 in
                    if b3 < 0x80 \<or> 0xBF < b3 then (0xFFFD, 1)
                    else ((b0 mod 0x08) * 0x40000 + (b1 mod 0x40) * 0x1000
                            + (b2 mod 0x40) * 0x40 + b3 mod 0x40, 4))"

definition runeWidth :: "nat list \<Rightarrow> nat" where
  "runeWidth bs = snd (decodeRune bs)"

function rangeOffsets :: "nat \<Rightarrow> nat list \<Rightarrow> nat list" where
  "rangeOffsets i bs =
     (if bs = [] then [] else i # rangeOffsets (i + runeWidth bs) (drop (runeWidth bs) bs))"
  by pat_completeness auto
termination
proof (relation "measure (\<lambda>(i, bs). length bs)")
  fix i :: nat and bs :: "nat list"
  assume "bs \<noteq> []"
  moreover from this have "0 < runeWidth bs"
    by (cases bs) (auto simp: runeWidth_def decodeRune_def Let_def)
  ultimately show "((i + runeWidth bs, drop (runeWidth bs) bs), (i, bs))
      \<in> measure (\<lambda>(i, bs). length bs)"
    by simp
qed simp

function toRunes :: "nat list \<Rightarrow> rune list" where
  "toRunes bs =
     (if bs = [] then [] else fst (decodeRune bs) # toRunes (drop (runeWidth bs) bs))"
  by pat_completeness auto
termination
proof (relation "measure length")
  fix bs :: "nat list"
  assume "bs \<noteq> []"
  moreover from this have "0 < runeWidth bs"
    by (cases bs) (auto simp: runeWidth_def decodeRune_def Let_def)
  ultimately show "(drop (runeWidth bs) bs, bs) \<in> measure length"
    by simp
qed simp

declare rangeOffsets.simps [simp del] toRunes.simps [simp del]

definition bytesOf :: "string \<Rightarrow> nat list" where
  "bytesOf text = map of_char text"

definition runesOf :: "string \<Rightarrow> rune list" where
  \<comment> \<open>\<open>[]rune(text)\<close>\<close>
  "runesOf text = toRunes (bytesOf text)"

definition clusterIndices :: "string \<Rightarrow> int list" where
  \<comment> \<open>the slice \<open>indices\<close> of \<open>shapeImpl\<close>: every rune's byte offset, then \<open>len(text)\<close>\<close>
  "clusterIndices text =
     map int (rangeOffsets 0 (bytesOf text)) @ [int (length text)]"

subsection \<open>Multiplication of \<open>float32\<close> values\<close>

text \<open>
  The scaling loop of \<open>shapeImpl\<close> multiplies \<open>float32\<close> coordinates. The product is
  the IEEE 754 binary32 one, rounded to nearest, ties to even: a finite value is
  \<open>f32_sig * 2 ^ (f32_ex - 150)\<close>, the exact product of two of them is rounded by
  \<open>f32_round\<close>. The payload of a NaN result depends on the machine; the quiet NaN
  \<open>0x7FC00000\<close> stands for it.
\<close>

definition f32_sign :: "float32 \<Rightarrow> bool" where
  "f32_sign a \<longleftrightarrow> 2 ^ 31 \<le> unat a"

definition f32_mag :: "float32 \<Rightarrow> nat" where
  "f32_mag a = unat a mod 2 ^ 31"

definition f32_make :: "bool \<Rightarrow> nat \<Rightarrow> float32" where
  "f32_make s m = of_nat ((if s then 2 ^ 31 else 0) + m)"

definition f32_isNaN :: "float32 \<Rightarrow> bool" where
  "f32_isNaN a \<longleftrightarrow> 0x7F800000 < f32_mag a"

definition f32_isInf :: "float32 \<Rightarrow> bool" where
  "f32_isInf a \<longleftrightarrow> f32_mag a = 0x7F800000"

definition f32_sig :: "float32 \<Rightarrow> nat" where
  "f32_sig a =
     (if f32_mag a div 2 ^ 23 = 0 then f32_mag a mod 2 ^ 23
      else f32_mag a mod 2 ^ 23 + 2 ^ 23)"

definition f32_ex :: "float32 \<Rightarrow> nat" where
  "f32_ex a = (if f32_mag a div 2 ^ 23 = 0 then 1 else f32_mag a div 2 ^ 23)"

fun bitlen :: "nat \<Rightarrow> nat" where
  "bitlen n = (if n = 0 then 0 else Suc (bitlen (n div 2)))"

declare bitlen.simps [simp del]

definition f32_round :: "nat \<Rightarrow> nat \<Rightarrow> nat" where
  \<comment> \<open>the magnitude bits nearest to \<open>M * 2 ^ (E - 300)\<close>, ties to even, infinity on overflow\<close>
  "f32_round M E =
     (if M = 0 then 0
      else
        let q = (E + bitlen M) - 175;
            k = (if q + 151 \<le> E then M * 2 ^ (E - 151 - q)
                 else
                   let sh = q + 151 - E;
                       k0 = M div 2 ^ sh;
                       r = M mod 2 ^ sh;
                       half = 2 ^ (sh - 1)
                   in if half < r \<or> (r = half \<and> odd k0) then k0 + 1 else k0)
        in min (q * 2 ^ 23 + k) 0x7F800000)"

definition f32_mul :: "float32 \<Rightarrow> float32 \<Rightarrow> float32" where
  "f32_mul a b =
     (if f32_isNaN a \<or> f32_isNaN b then 0x7FC00000
      else if (f32_isInf a \<and> f32_mag b = 0) \<or> (f32_mag a = 0 \<and> f32_isInf b) then 0x7FC00000
      else if f32_isInf a \<or> f32_isInf b then f32_make (f32_sign a \<noteq> f32_sign b) 0x7F800000
      else f32_make (f32_sign a \<noteq> f32_sign b)
             (f32_round (f32_sig a * f32_sig b) (f32_ex a + f32_ex b)))"

definition f32_neg :: "float32 \<Rightarrow> float32" where
  \<comment> \<open>Go's \<open>-a\<close>: the same magnitude bits under the opposite sign bit\<close>
  "f32_neg a = f32_make (\<not> f32_sign a) (f32_mag a)"

definition f32_key :: "float32 \<Rightarrow> int" where
  "f32_key a = (if f32_sign a then - int (f32_mag a) else int (f32_mag a))"

definition f32_lt :: "float32 \<Rightarrow> float32 \<Rightarrow> bool" where
  \<comment> \<open>Go's \<open>a < b\<close>\<close>
  "f32_lt a b \<longleftrightarrow> \<not> f32_isNaN a \<and> \<not> f32_isNaN b \<and> f32_key a < f32_key b"

definition f32_le :: "float32 \<Rightarrow> float32 \<Rightarrow> bool" where
  \<comment> \<open>Go's \<open>a <= b\<close>\<close>
  "f32_le a b \<longleftrightarrow> \<not> f32_isNaN a \<and> \<not> f32_isNaN b \<and> f32_key a \<le> f32_key b"

subsection \<open>Go integers and indexing\<close>

definition goIndex :: "'a list \<Rightarrow> int \<Rightarrow> error + 'a" where
  \<comment> \<open>\<open>xs[i]\<close> on a slice: the run-time bounds check panics out of range\<close>
  "goIndex xs i =
     (if 0 \<le> i \<and> i < int (length xs) then Inr (xs ! nat i) else Inl PanicIndexOutOfRange)"

section \<open>Data model\<close>

text \<open>
  Modelled from the spec: the type \<open>Direction\<close> is declared outside the source file; the
  spec names the writing directions left-to-right, right-to-left and top-to-bottom.
\<close>

datatype Direction = DirectionLeftToRight | DirectionRightToLeft | DirectionTopToBottom

type_synonym variation = "32 word \<times> float32"
type_synonym feature = "32 word \<times> 32 word"
type_synonym diDirection = "8 word"
type_synonym Rectangle26_6 = "(fixed26_6 \<times> fixed26_6) \<times> (fixed26_6 \<times> fixed26_6)"
type_synonym Image = pointer

record SegmentPoint =
  X :: float32
  Y :: float32

record Segment =
  Op :: "8 word"
  Args :: "SegmentPoint \<times> SegmentPoint \<times> SegmentPoint"

datatype GlyphData =
    GlyphOutline "Segment list"
  | GlyphSVG "Segment list"
  | GlyphBitmap "Segment list option"
  | GlyphDataNil

record shapingGlyph =
  GlyphID :: GID
  ClusterIndex :: "64 word"
  RuneCount :: "64 word"
  XOffset :: fixed26_6
  YOffset :: fixed26_6

record Output =
  Glyphs :: "shapingGlyph list"
  oDirection :: diDirection
  oSize :: fixed26_6

record Input =
  Text :: "rune list"
  RunStart :: int
  RunEnd :: int
  iDirection :: diDirection
  iFace :: pointer
  FontFeatures :: "feature list"
  iSize :: fixed26_6
  iScript :: "32 word"
  iLanguage :: string

record goTextOutputCacheKey =
  k_text :: string
  k_direction :: Direction
  k_size :: float64
  k_language :: string
  k_script :: string
  k_variations :: string
  k_features :: string

record glyph =
  shapingGlyph :: shapingGlyph
  startIndex :: int
  endIndex :: int
  scaledSegments :: "Segment list"
  bounds :: Rectangle26_6

record goTextOutputCacheValue =
  outputs :: "Output list"
  glyphs :: "glyph list"

record goTextGlyphImageCacheKey =
  gid :: GID
  xoffset :: fixed26_6
  yoffset :: fixed26_6
  gk_variations :: string

text \<open>
  Modelled from the spec: \<open>Metadata\<close> is declared outside the source file; it is static
  descriptive data of the font (family name, style flags).
\<close>

record Metadata =
  Family :: string
  StyleFlags :: nat

text \<open>
  Modelled from the spec: the generic keyed cache \<open>cache[Key, Value]\<close> is defined outside
  the source file. It is a bounded mapping with a capacity given at construction; the
  entries are kept most recently used first.
\<close>

record ('k, 'v) cache =
  capacity :: int
  entries :: "('k \<times> 'v) list"

record GoTextFaceSource =
  sf :: pointer
  metadata :: Metadata
  outputCache :: "(goTextOutputCacheKey, goTextOutputCacheValue) cache"
  glyphImageCache :: "(float64 \<times> (goTextGlyphImageCacheKey, Image) cache) list option"
  addr :: pointer

text \<open>
  Modelled from the spec: \<open>GoTextFace\<close> is declared outside the source file. A styled
  run has a writing direction, a size, a language tag, a script tag, feature toggles and a
  variation-axis assignment; each tag is held as the string that names it, a feature
  toggle as its tag and value, a variation as its axis tag and the bits of its value.
  A \<open>font.Face\<close> is a parsed font with the variations last set on it.
\<close>

record GoTextFace =
  Source :: pointer
  Direction :: Direction
  Size :: float64
  Language :: string
  Script :: string
  faceVariations :: "variation list"
  faceFeatures :: "feature list"

record FontFace =
  Font :: nat
  currentVariations :: "variation list"

datatype reader = Resource string | Reader "error + string"

subsection \<open>The state of the program\<close>

text \<open>
  \<open>GoTextFaceSource\<close> and \<open>font.Face\<close> values live at addresses; address 0 is
  \<open>nil\<close>. \<open>calls\<close> records every call made to the shaping library and to the font,
  in order, so that a theorem can say which work an operation performed.
\<close>

datatype call =
    CallSetVariations
  | CallSplit
  | CallShape
  | CallAdjustBaselines
  | CallGlyphData GID
  | CallSideways
  | CallUpem

record world =
  sources :: "pointer \<rightharpoonup> GoTextFaceSource"
  faces :: "pointer \<rightharpoonup> FontFace"
  calls :: "call list"
  nextFree :: pointer

subsection \<open>Code outside the source file\<close>

text \<open>
  The functions of the package that are defined in other files
  (\<open>float64ToFixed26_6\<close> to \<open>gScript\<close>), the shaping and font library
  (\<open>Split\<close> to \<open>NewFont\<close>) and the floating-point operations other than the
  multiplication are parameters.
\<close>

record env =
  float64ToFixed26_6 :: "float64 \<Rightarrow> fixed26_6"
  fixed26_6ToFloat32 :: "fixed26_6 \<Rightarrow> float32"
  fixed26_6ToFloat64 :: "fixed26_6 \<Rightarrow> float64"
  segmentsToBounds :: "Segment list \<Rightarrow> Rectangle26_6"
  metadataFromFace :: "FontFace option \<Rightarrow> Metadata"
  glyphVariationCount :: "GoTextFace \<Rightarrow> 64 word"
  diDirection :: "GoTextFace \<Rightarrow> diDirection"
  gScript :: "GoTextFace \<Rightarrow> 32 word"
  Split :: "Input \<Rightarrow> Input list"
  Shape :: "FontFace \<Rightarrow> Input \<Rightarrow> Output"
  AdjustBaselines :: "Output \<Rightarrow> nat \<Rightarrow> shapingGlyph \<Rightarrow> shapingGlyph"
  faceGlyphData :: "FontFace \<Rightarrow> GID \<Rightarrow> GlyphData"
  Upem :: "FontFace \<Rightarrow> 16 word"
  IsSideways :: "diDirection \<Rightarrow> bool"
  Sideways :: "Segment list \<Rightarrow> float32 \<Rightarrow> Segment list"
  NewLoader :: "string \<Rightarrow> error + nat"
  NewLoaders :: "string \<Rightarrow> error + nat list"
  NewFont :: "nat \<Rightarrow> error + nat"
  f32_div :: "float32 \<Rightarrow> float32 \<Rightarrow> float32"
  f32_of_uint16 :: "16 word \<Rightarrow> float32"
  f64_div :: "float64 \<Rightarrow> float64 \<Rightarrow> float64"
  f64_of_uint16 :: "16 word \<Rightarrow> float64"
  f32_of_f64 :: "float64 \<Rightarrow> float32"

section \<open>The generic keyed cache\<close>

text \<open>
  Modelled from the spec: \<open>newCache\<close> and \<open>getOrCreate\<close> are defined outside the
  source file. \<open>getOrCreate\<close> returns the stored value of a present key without
  invoking \<open>create\<close>; for an absent key it invokes \<open>create\<close> once, returns its
  value and, when \<open>create\<close> says the value is cacheable, stores it, evicting the least
  recently used entries so that no more than \<open>capacity\<close> remain. The keys are
  compared by \<open>eq\<close>, Go's \<open>==\<close> on the key type.
\<close>

definition newCache :: "int \<Rightarrow> ('k, 'v) cache" where
  "newCache n = \<lparr>capacity = n, entries = []\<rparr>"

fun cacheFind :: "('k \<Rightarrow> 'k \<Rightarrow> bool) \<Rightarrow> 'k \<Rightarrow> ('k \<times> 'v) list \<Rightarrow> 'v option" where
  "cacheFind eq key [] = None"
| "cacheFind eq key ((k, v) # es) = (if eq k key then Some v else cacheFind eq key es)"

definition cacheTouch :: "('k \<Rightarrow> 'k \<Rightarrow> bool) \<Rightarrow> 'k \<Rightarrow> ('k \<times> 'v) list \<Rightarrow> ('k \<times> 'v) list" where
  \<comment> \<open>a hit makes the entry the most recently used one\<close>
  "cacheTouch eq key es =
     (case find (\<lambda>e. eq (fst e) key) es of None \<Rightarrow> es | Some e \<Rightarrow> e # remove1 e es)"

definition getOrCreate ::
  "('k \<Rightarrow> 'k \<Rightarrow> bool) \<Rightarrow> ('k, 'v) cache \<Rightarrow> 'k \<Rightarrow> ('w \<Rightarrow> (error + 'v \<times> bool) \<times> 'w) \<Rightarrow> 'w
     \<Rightarrow> (error + 'v) \<times> ('k, 'v) cache \<times> 'w" where
  "getOrCreate eq c key create w =
     (case cacheFind eq key (entries c) of
        Some v \<Rightarrow> (Inr v, c\<lparr>entries := cacheTouch eq key (entries c)\<rparr>, w)
      | None \<Rightarrow>
          (case create w of
             (Inl e, w') \<Rightarrow> (Inl e, c, w')
           | (Inr (v, cacheable), w') \<Rightarrow>
               (Inr v,
                if cacheable
                then c\<lparr>entries := take (nat (capacity c)) ((key, v) # entries c)\<rparr>
                else c,
                w')))"

section \<open>Cache keys\<close>

definition goTextOutputCacheKey_eq :: "goTextOutputCacheKey \<Rightarrow> goTextOutputCacheKey \<Rightarrow> bool" where
  \<comment> \<open>Go's \<open>==\<close> on the struct: field by field, the \<open>float64\<close> field by \<open>f64_eq\<close>\<close>
  "goTextOutputCacheKey_eq a b \<longleftrightarrow>
     k_text a = k_text b \<and> k_direction a = k_direction b \<and> f64_eq (k_size a) (k_size b) \<and>
     k_language a = k_language b \<and> k_script a = k_script b \<and>
     k_variations a = k_variations b \<and> k_features a = k_features b"

text \<open>
  Modelled from the spec: the canonical strings of the feature toggles and of the
  variation axes are made outside the source file. A set of entries is canonicalized as
  a sorted-and-joined string: the entries are sorted by tag, then value, and the eight
  bytes of each entry (tag, then value, least significant byte first) are joined.
\<close>

definition bytes4 :: "32 word \<Rightarrow> string" where
  "bytes4 w =
     [char_of (unat w), char_of (unat w div 0x100), char_of (unat w div 0x10000),
      char_of (unat w div 0x1000000)]"

definition encodeEntry :: "32 word \<times> 32 word \<Rightarrow> string" where
  "encodeEntry e = bytes4 (fst e) @ bytes4 (snd e)"

definition entryKey :: "32 word \<times> 32 word \<Rightarrow> nat" where
  "entryKey e = unat (fst e) * 0x100000000 + unat (snd e)"

definition canonicalString :: "(32 word \<times> 32 word) list \<Rightarrow> string" where
  "canonicalString es = concat (map encodeEntry (sort_key entryKey es))"

definition featuresString :: "feature list \<Rightarrow> string" where
  "featuresString fs = canonicalString fs"

definition variationsString :: "variation list \<Rightarrow> string" where
  "variationsString vs = canonicalString vs"

text \<open>
  Modelled from the spec: \<open>GoTextFace.outputCacheKey\<close> is defined outside the source
  file. The key is derived from the text plus every style field: direction, size,
  language, script, and the variation and feature sets as their canonical strings.
\<close>

definition outputCacheKey :: "env \<Rightarrow> GoTextFace \<Rightarrow> string \<Rightarrow> goTextOutputCacheKey" where
  "outputCacheKey env face text =
     \<lparr>k_text = text,
      k_direction = Direction face,
      k_size = Size face,
      k_language = Language face,
      k_script = Script face,
      k_variations = variationsString (faceVariations face),
      k_features = featuresString (faceFeatures face)\<rparr>"

section \<open>The face source\<close>

definition toFontResource :: "reader \<Rightarrow> error + string" where
  "toFontResource source =
     (case source of
        Resource s \<Rightarrow> Inr s
      | Reader (Inl err) \<Rightarrow> Inl err
      | Reader (Inr bs) \<Rightarrow> Inr bs)"

definition newFace :: "nat \<Rightarrow> world \<Rightarrow> pointer \<times> world" where
  \<comment> \<open>\<open>&font.Face{Font: f}\<close>\<close>
  "newFace fnt w =
     (nextFree w,
      w\<lparr>faces := (faces w)(nextFree w \<mapsto> \<lparr>Font = fnt, currentVariations = []\<rparr>),
        nextFree := Suc (nextFree w)\<rparr>)"

definition newGoTextFaceSource :: "env \<Rightarrow> pointer \<Rightarrow> world \<Rightarrow> pointer \<times> world" where
  "newGoTextFaceSource env face w =
     (nextFree w,
      w\<lparr>sources := (sources w)(nextFree w \<mapsto>
            \<lparr>sf = face,
             metadata = metadataFromFace env (faces w face),
             outputCache = newCache 512,
             glyphImageCache = None,
             addr = nextFree w\<rparr>),
        nextFree := Suc (nextFree w)\<rparr>)"

definition NewGoTextFaceSource :: "env \<Rightarrow> reader \<Rightarrow> world \<Rightarrow> (pointer \<times> error option) \<times> world" where
  "NewGoTextFaceSource env source w =
     (case toFontResource source of
        Inl err \<Rightarrow> ((0, Some err), w)
      | Inr src \<Rightarrow>
          (case NewLoader env src of
             Inl err \<Rightarrow> ((0, Some err), w)
           | Inr l \<Rightarrow>
               (case NewFont env l of
                  Inl err \<Rightarrow> ((0, Some err), w)
                | Inr fnt \<Rightarrow>
                    (case newFace fnt w of (fp, w1) \<Rightarrow>
                       (case newGoTextFaceSource env fp w1 of (s, w2) \<Rightarrow>
                          ((s, None), w2))))))"

text \<open>
  The loop of \<open>NewGoTextFaceSourcesFromCollection\<close>: \<open>srcs\<close> is the slice made with
  one \<open>nil\<close> per loader, \<open>i\<close> the index of the next loader. \<open>None\<close> is the
  \<open>nil\<close> slice.
\<close>

fun collectionLoop ::
  "env \<Rightarrow> nat \<Rightarrow> nat list \<Rightarrow> pointer list \<Rightarrow> world
     \<Rightarrow> (pointer list option \<times> error option) \<times> world" where
  "collectionLoop env i [] srcs w = ((Some srcs, None), w)"
| "collectionLoop env i (l # ls) srcs w =
     (case NewFont env l of
        Inl err \<Rightarrow> ((None, Some err), w)
      | Inr fnt \<Rightarrow>
          (case newFace fnt w of (fp, w1) \<Rightarrow>
             (case newGoTextFaceSource env fp w1 of (s, w2) \<Rightarrow>
                collectionLoop env (Suc i) ls (srcs[i := s]) w2)))"

definition NewGoTextFaceSourcesFromCollection ::
  "env \<Rightarrow> reader \<Rightarrow> world \<Rightarrow> (pointer list option \<times> error option) \<times> world" where
  "NewGoTextFaceSourcesFromCollection env source w =
     (case toFontResource source of
        Inl err \<Rightarrow> ((None, Some err), w)
      | Inr src \<Rightarrow>
          (case NewLoaders env src of
             Inl err \<Rightarrow> ((None, Some err), w)
           | Inr ls \<Rightarrow> collectionLoop env 0 ls (replicate (length ls) 0) w))"

definition copyCheck :: "pointer \<Rightarrow> world \<Rightarrow> error + unit" where
  "copyCheck g w =
     (case sources w g of
        None \<Rightarrow> Inl PanicNilDereference
      | Some s \<Rightarrow> if addr s \<noteq> g then Inl PanicCopiedByValue else Inr ())"

definition Metadata :: "pointer \<Rightarrow> world \<Rightarrow> error + Metadata" where
  "Metadata g w =
     (case sources w g of None \<Rightarrow> Inl PanicNilDereference | Some s \<Rightarrow> Inr (metadata s))"

definition UnsafeInternal :: "pointer \<Rightarrow> world \<Rightarrow> error + pointer" where
  "UnsafeInternal g w =
     (case sources w g of None \<Rightarrow> Inl PanicNilDereference | Some s \<Rightarrow> Inr (sf s))"

section \<open>Shaping\<close>

definition scalePoint :: "float32 \<Rightarrow> SegmentPoint \<Rightarrow> SegmentPoint" where
  \<comment> \<open>\<open>Args[j].X *= scale; Args[j].Y *= -scale\<close>\<close>
  "scalePoint sc p = p\<lparr>X := f32_mul (X p) sc, Y := f32_mul (Y p) (f32_neg sc)\<rparr>"

definition scaleSegment :: "float32 \<Rightarrow> Segment \<Rightarrow> Segment" where
  \<comment> \<open>\<open>scaledSegs[i] = seg\<close>, then the loop over the three \<open>Args\<close>\<close>
  "scaleSegment sc seg =
     (case Args seg of (a0, a1, a2) \<Rightarrow>
        seg\<lparr>Args := (scalePoint sc a0, scalePoint sc a1, scalePoint sc a2)\<rparr>)"

definition scale :: "env \<Rightarrow> FontFace \<Rightarrow> float64 \<Rightarrow> float64" where
  \<comment> \<open>\<open>size / float64(g.f.Upem())\<close>\<close>
  "scale env gf sz = f64_div env sz (f64_of_uint16 env (Upem env gf))"

definition glyphScale :: "env \<Rightarrow> FontFace \<Rightarrow> Output \<Rightarrow> float32" where
  \<comment> \<open>\<open>float32(g.scale(fixed26_6ToFloat64(out.Size)))\<close>\<close>
  "glyphScale env gf out = f32_of_f64 env (scale env gf (fixed26_6ToFloat64 env (oSize out)))"

definition glyphSegments :: "env \<Rightarrow> FontFace \<Rightarrow> FontFace \<Rightarrow> Output \<Rightarrow> shapingGlyph \<Rightarrow> Segment list" where
  \<comment> \<open>the type switch on \<open>g.f.GlyphData(gl.GlyphID)\<close>\<close>
  "glyphSegments env gf f out gl =
     (case faceGlyphData env gf (GlyphID gl) of
        GlyphOutline segs \<Rightarrow>
          if IsSideways env (oDirection out)
          then Sideways env segs
                 (f32_mul
                    (f32_div env (fixed26_6ToFloat32 env (- YOffset gl))
                       (fixed26_6ToFloat32 env (oSize out)))
                    (f32_of_uint16 env (Upem env f)))
          else segs
      | GlyphSVG segs \<Rightarrow> segs
      | GlyphBitmap outline \<Rightarrow> (case outline of None \<Rightarrow> [] | Some segs \<Rightarrow> segs)
      | GlyphDataNil \<Rightarrow> [])"

definition glyphCalls :: "env \<Rightarrow> FontFace \<Rightarrow> Output \<Rightarrow> shapingGlyph \<Rightarrow> call list" where
  "glyphCalls env gf out gl =
     CallGlyphData (GlyphID gl) #
     (case faceGlyphData env gf (GlyphID gl) of
        GlyphOutline segs \<Rightarrow>
          if IsSideways env (oDirection out) then [CallUpem, CallSideways] else []
      | _ \<Rightarrow> [])
     @ [CallUpem]"

definition shapeGlyph ::
  "env \<Rightarrow> FontFace option \<Rightarrow> FontFace \<Rightarrow> int list \<Rightarrow> Output \<Rightarrow> shapingGlyph
     \<Rightarrow> (error + glyph) \<times> call list" where
  \<comment> \<open>the body of the loop over \<open>out.Glyphs\<close>\<close>
  "shapeGlyph env gfo f indices out gl =
     (case gfo of
        None \<Rightarrow> (Inl PanicNilDereference, [])
      | Some gf \<Rightarrow>
          let segs = glyphSegments env gf f out gl;
              scaledSegs = map (scaleSegment (glyphScale env gf out)) segs;
              cs = glyphCalls env gf out gl
          in (case goIndex indices (sint (ClusterIndex gl)) of
                Inl e \<Rightarrow> (Inl e, cs)
              | Inr si \<Rightarrow>
                  (case goIndex indices (sint (ClusterIndex gl + RuneCount gl)) of
                     Inl e \<Rightarrow> (Inl e, cs)
                   | Inr ei \<Rightarrow>
                       (Inr \<lparr>shapingGlyph = gl, startIndex = si, endIndex = ei,
                             scaledSegments = scaledSegs,
                             bounds = segmentsToBounds env scaledSegs\<rparr>, cs))))"

fun shapeGlyphs ::
  "env \<Rightarrow> FontFace option \<Rightarrow> FontFace \<Rightarrow> int list \<Rightarrow> Output \<Rightarrow> shapingGlyph list
     \<Rightarrow> (error + glyph list) \<times> call list" where
  "shapeGlyphs env gfo f indices out [] = (Inr [], [])"
| "shapeGlyphs env gfo f indices out (gl # gls) =
     (case shapeGlyph env gfo f indices out gl of
        (Inl e, cs) \<Rightarrow> (Inl e, cs)
      | (Inr g1, cs) \<Rightarrow>
          (case shapeGlyphs env gfo f indices out gls of
             (Inl e, cs') \<Rightarrow> (Inl e, cs @ cs')
           | (Inr gs, cs') \<Rightarrow> (Inr (g1 # gs), cs @ cs')))"

definition adjustedOutput :: "env \<Rightarrow> Output \<Rightarrow> Output" where
  \<comment> \<open>\<open>(shaping.Line{out}).AdjustBaselines()\<close> writes through the glyph slice that
      \<open>out\<close> and \<open>outputs[i]\<close> share\<close>
  "adjustedOutput env out =
     out\<lparr>Glyphs := map (\<lambda>(j, gl). AdjustBaselines env out j gl) (enumerate 0 (Glyphs out))\<rparr>"

definition shapeRun ::
  "env \<Rightarrow> FontFace option \<Rightarrow> FontFace \<Rightarrow> string \<Rightarrow> Input
     \<Rightarrow> (error + Output \<times> glyph list) \<times> call list" where
  \<comment> \<open>the body of the loop over \<open>inputs\<close>\<close>
  "shapeRun env gfo f text input =
     (let out = adjustedOutput env (Shape env f input);
          indices = clusterIndices text
      in (case shapeGlyphs env gfo f indices out (Glyphs out) of
            (Inl e, cs) \<Rightarrow> (Inl e, [CallShape, CallAdjustBaselines] @ cs)
          | (Inr gs, cs) \<Rightarrow> (Inr (out, gs), [CallShape, CallAdjustBaselines] @ cs)))"

fun shapeRuns ::
  "env \<Rightarrow> FontFace option \<Rightarrow> FontFace \<Rightarrow> string \<Rightarrow> Input list
     \<Rightarrow> (error + Output list \<times> glyph list) \<times> call list" where
  "shapeRuns env gfo f text [] = (Inr ([], []), [])"
| "shapeRuns env gfo f text (input # inputs) =
     (case shapeRun env gfo f text input of
        (Inl e, cs) \<Rightarrow> (Inl e, cs)
      | (Inr (out, gs), cs) \<Rightarrow>
          (case shapeRuns env gfo f text inputs of
             (Inl e, cs') \<Rightarrow> (Inl e, cs @ cs')
           | (Inr (outs, gs'), cs') \<Rightarrow> (Inr (out # outs, gs @ gs'), cs @ cs')))"

definition shapingInput :: "env \<Rightarrow> pointer \<Rightarrow> string \<Rightarrow> GoTextFace \<Rightarrow> Input" where
  "shapingInput env fp text face =
     \<lparr>Text = runesOf text,
      RunStart = 0,
      RunEnd = int (length (runesOf text)),
      iDirection = diDirection env face,
      iFace = fp,
      FontFeatures = faceFeatures face,
      iSize = float64ToFixed26_6 env (Size face),
      iScript = gScript env face,
      iLanguage = Language face\<rparr>"

definition segmentedInputs :: "env \<Rightarrow> pointer \<Rightarrow> string \<Rightarrow> GoTextFace \<Rightarrow> Input list" where
  \<comment> \<open>\<open>seg.Split\<close>, then \<open>slices.Reverse\<close> for a right-to-left face\<close>
  "segmentedInputs env fp text face =
     (let inputs = Split env (shapingInput env fp text face)
      in if Direction face = DirectionRightToLeft then rev inputs else inputs)"

definition shapeImpl ::
  "env \<Rightarrow> pointer \<Rightarrow> string \<Rightarrow> GoTextFace \<Rightarrow> world
     \<Rightarrow> (error + Output list \<times> glyph list) \<times> world" where
  "shapeImpl env g text face w =
     (case sources w (Source face) of
        None \<Rightarrow> (Inl PanicNilDereference, w)
      | Some fs \<Rightarrow>
          (case faces w (sf fs) of
             None \<Rightarrow> (Inl PanicNilDereference, w)
           | Some f0 \<Rightarrow>
               let f = f0\<lparr>currentVariations := faceVariations face\<rparr>;
                   w1 = w\<lparr>faces := (faces w)(sf fs \<mapsto> f),
                          calls := calls w @ [CallSetVariations, CallSplit]\<rparr>;
                   inputs = segmentedInputs env (sf fs) text face
               in (case sources w1 g of
                     None \<Rightarrow>
                       if inputs = [] then (Inr ([], []), w1)
                       else (Inl PanicNilDereference, w1)
                   | Some s \<Rightarrow>
                       (case shapeRuns env (faces w1 (sf s)) f text inputs of
                          (r, cs) \<Rightarrow> (r, w1\<lparr>calls := calls w1 @ cs\<rparr>)))))"

definition shapeCreate ::
  "env \<Rightarrow> pointer \<Rightarrow> string \<Rightarrow> GoTextFace \<Rightarrow> world
     \<Rightarrow> (error + goTextOutputCacheValue \<times> bool) \<times> world" where
  \<comment> \<open>the function literal that \<open>shape\<close> hands to \<open>getOrCreate\<close>\<close>
  "shapeCreate env g text face w =
     (case shapeImpl env g text face w of
        (Inl e, w') \<Rightarrow> (Inl e, w')
      | (Inr (outs, gs), w') \<Rightarrow> (Inr (\<lparr>outputs = outs, glyphs = gs\<rparr>, True), w'))"

definition setOutputCache ::
  "pointer \<Rightarrow> (goTextOutputCacheKey, goTextOutputCacheValue) cache \<Rightarrow> world \<Rightarrow> world" where
  "setOutputCache g c w =
     w\<lparr>sources := (sources w)(g := map_option (\<lambda>s. s\<lparr>outputCache := c\<rparr>) (sources w g))\<rparr>"

definition shape ::
  "env \<Rightarrow> pointer \<Rightarrow> string \<Rightarrow> GoTextFace \<Rightarrow> world
     \<Rightarrow> (error + Output list \<times> glyph list) \<times> world" where
  "shape env g text face w =
     (case copyCheck g w of
        Inl e \<Rightarrow> (Inl e, w)
      | Inr _ \<Rightarrow>
          (case sources w g of
             None \<Rightarrow> (Inl PanicNilDereference, w)
           | Some s \<Rightarrow>
               (case getOrCreate goTextOutputCacheKey_eq (outputCache s)
                       (outputCacheKey env face text) (shapeCreate env g text face) w of
                  (Inl e, c, w') \<Rightarrow> (Inl e, w')
                | (Inr v, c, w') \<Rightarrow> (Inr (outputs v, glyphs v), setOutputCache g c w'))))"

section \<open>Glyph images\<close>

text \<open>
  A Go map keyed by \<open>float64\<close> finds a key by \<open>==\<close>: a NaN key is never found, and
  storing under it adds an entry each time.
\<close>

fun mapFind :: "float64 \<Rightarrow> (float64 \<times> 'c) list \<Rightarrow> 'c option" where
  "mapFind k [] = None"
| "mapFind k ((k', c) # m) = (if f64_eq k' k then Some c else mapFind k m)"

fun mapStore :: "float64 \<Rightarrow> 'c \<Rightarrow> (float64 \<times> 'c) list \<Rightarrow> (float64 \<times> 'c) list" where
  "mapStore k c [] = [(k, c)]"
| "mapStore k c ((k', c') # m) =
     (if f64_eq k' k then (k', c) # m else (k', c') # mapStore k c m)"

definition setGlyphImageCache ::
  "pointer \<Rightarrow> (float64 \<times> (goTextGlyphImageCacheKey, Image) cache) list \<Rightarrow> world \<Rightarrow> world" where
  \<comment> \<open>\<open>g.glyphImageCache = m\<close>\<close>
  "setGlyphImageCache g m w =
     w\<lparr>sources := (sources w)(g := map_option (\<lambda>s. s\<lparr>glyphImageCache := Some m\<rparr>) (sources w g))\<rparr>"

definition setSizeCache ::
  "pointer \<Rightarrow> float64 \<Rightarrow> (goTextGlyphImageCacheKey, Image) cache \<Rightarrow> world \<Rightarrow> world" where
  \<comment> \<open>the cache that \<open>g.glyphImageCache[size]\<close> points to takes the value \<open>c\<close>\<close>
  "setSizeCache g sz c w =
     w\<lparr>sources := (sources w)(g := map_option
          (\<lambda>s. s\<lparr>glyphImageCache := map_option (mapStore sz c) (glyphImageCache s)\<rparr>)
          (sources w g))\<rparr>"

definition sizeCaches ::
  "env \<Rightarrow> GoTextFaceSource \<Rightarrow> GoTextFace \<Rightarrow> (float64 \<times> (goTextGlyphImageCacheKey, Image) cache) list" where
  \<comment> \<open>the map after the two \<open>if\<close> statements of \<open>getOrCreateGlyphImage\<close>\<close>
  "sizeCaches env s goTextFace =
     (let m = (case glyphImageCache s of None \<Rightarrow> [] | Some m \<Rightarrow> m)
      in (case mapFind (Size goTextFace) m of
            None \<Rightarrow>
              mapStore (Size goTextFace)
                (newCache (sint (128 * glyphVariationCount env goTextFace))) m
          | Some _ \<Rightarrow> m))"

definition getOrCreateGlyphImage ::
  "env \<Rightarrow> pointer \<Rightarrow> GoTextFace \<Rightarrow> goTextGlyphImageCacheKey
     \<Rightarrow> (world \<Rightarrow> (error + Image \<times> bool) \<times> world) \<Rightarrow> world \<Rightarrow> (error + Image) \<times> world" where
  "getOrCreateGlyphImage env g goTextFace key create w =
     (case sources w g of
        None \<Rightarrow> (Inl PanicNilDereference, w)
      | Some s \<Rightarrow>
          let m = sizeCaches env s goTextFace;
              w1 = setGlyphImageCache g m w
          in (case mapFind (Size goTextFace) m of
                None \<Rightarrow> (Inl PanicNilDereference, w1)
              | Some c \<Rightarrow>
                  (case getOrCreate (=) c key create w1 of
                     (Inl e, c', w') \<Rightarrow> (Inl e, w')
                   | (Inr img, c', w') \<Rightarrow>
                       (Inr img, setSizeCache g (Size goTextFace) c' w'))))"

section \<open>Reading the byte offsets\<close>

fun dropRunes :: "nat \<Rightarrow> nat list \<Rightarrow> nat list" where
  \<comment> \<open>the bytes left after the first \<open>k\<close> runes\<close>
  "dropRunes 0 bs = bs"
| "dropRunes (Suc k) bs = dropRunes k (drop (runeWidth bs) bs)"

text \<open>The image caches of a source, and their sizes and capacities.\<close>

definition imageCaches ::
  "pointer \<Rightarrow> world \<Rightarrow> (float64 \<times> (goTextGlyphImageCacheKey, Image) cache) list" where
  "imageCaches g w =
     (case sources w g of
        None \<Rightarrow> []
      | Some s \<Rightarrow> (case glyphImageCache s of None \<Rightarrow> [] | Some m \<Rightarrow> m))"

definition imageCacheSizes :: "pointer \<Rightarrow> world \<Rightarrow> (float64 \<times> int) list" where
  "imageCacheSizes g w = map (\<lambda>(k, c). (k, capacity c)) (imageCaches g w)"

section \<open>A stub environment\<close>

text \<open>
  A segmenter that cuts the text into one sub-run per rune, and a shaper that gives each
  sub-run one glyph per rune, the glyph of rune \<open>r\<close> being glyph \<open>r\<close> with an outline of
  one segment through \<open>(1, 2)\<close> in font units; the font has 1000 units per em.
\<close>

definition stubSplit :: "Input \<Rightarrow> Input list" where
  "stubSplit input =
     map (\<lambda>i. input\<lparr>RunStart := int i, RunEnd := int i + 1\<rparr>) [0 ..< length (Text input)]"

definition stubShape :: "FontFace \<Rightarrow> Input \<Rightarrow> Output" where
  "stubShape f input =
     \<lparr>Glyphs =
        map (\<lambda>i. \<lparr>GlyphID = of_nat (Text input ! i), ClusterIndex = of_nat i, RuneCount = 1,
                  XOffset = 0, YOffset = 0\<rparr>)
          [nat (RunStart input) ..< nat (RunEnd input)],
      oDirection = iDirection input,
      oSize = iSize input\<rparr>"

definition stubPoint :: SegmentPoint where
  "stubPoint = \<lparr>X = 0x3F800000, Y = 0x40000000\<rparr>"

definition stubEnv :: env where
  "stubEnv =
     \<lparr>float64ToFixed26_6 = (\<lambda>x. 768),
      fixed26_6ToFloat32 = (\<lambda>x. 0x41400000),
      fixed26_6ToFloat64 = (\<lambda>x. 0x4028000000000000),
      segmentsToBounds = (\<lambda>segs. ((0, 0), (0, 0))),
      metadataFromFace = (\<lambda>f. \<lparr>Family = ''Stub'', StyleFlags = 0\<rparr>),
      glyphVariationCount = (\<lambda>face. 4),
      diDirection = (\<lambda>face. if Direction face = DirectionRightToLeft then 1 else 0),
      gScript = (\<lambda>face. 0x4C61746E),
      Split = stubSplit,
      Shape = stubShape,
      AdjustBaselines = (\<lambda>out j gl. gl),
      faceGlyphData = (\<lambda>f i. GlyphOutline [\<lparr>Op = 0, Args = (stubPoint, stubPoint, stubPoint)\<rparr>]),
      Upem = (\<lambda>f. 1000),
      IsSideways = (\<lambda>d. False),
      Sideways = (\<lambda>segs a. segs),
      NewLoader = (\<lambda>src. if src = [] then Inl (ErrParse ''empty'') else Inr 0),
      NewLoaders = (\<lambda>src. if src = [] then Inl (ErrParse ''empty'')
                           else Inr (map of_char src)),
      NewFont = (\<lambda>l. if l = 0 then Inl (ErrParse ''font'') else Inr l),
      f32_div = (\<lambda>a b. a),
      f32_of_uint16 = (\<lambda>u. 0x447A0000),
      f64_div = (\<lambda>a b. 0x3F889374BC6A7EFA),
      f64_of_uint16 = (\<lambda>u. 0x408F400000000000),
      f32_of_f64 = (\<lambda>a. 0x3C449BA6)\<rparr>"

definition stubFace :: "Direction \<Rightarrow> GoTextFace" where
  "stubFace d =
     \<lparr>Source = 2, Direction = d, Size = 0x4028000000000000, Language = ''en'',
      Script = ''Latn'', faceVariations = [], faceFeatures = []\<rparr>"

definition stubWorld :: world where
  \<comment> \<open>one source at address 2, made by \<open>newGoTextFaceSource\<close> for the face at address 1\<close>
  "stubWorld =
     snd (newGoTextFaceSource stubEnv 1
            \<lparr>sources = Map.empty,
             faces = [1 \<mapsto> \<lparr>Font = 7, currentVariations = []\<rparr>],
             calls = [],
             nextFree = 2\<rparr>)"

definition copiedWorld :: world where
  \<comment> \<open>the source at address 2 copied by value to address 3\<close>
  "copiedWorld = stubWorld\<lparr>sources := (sources stubWorld)(3 := sources stubWorld 2)\<rparr>"

definition stubKey :: goTextGlyphImageCacheKey where
  "stubKey = \<lparr>gid = 65, xoffset = 0, yoffset = 0, gk_variations = []\<rparr>"

definition stubCreate :: "world \<Rightarrow> (error + Image \<times> bool) \<times> world" where
  \<comment> \<open>a rasterizer that returns the image at address 9 and lets it be cached\<close>
  "stubCreate w = (Inr (9, True), w)"

definition overrunEnv :: env where
  \<comment> \<open>a shaper whose glyphs all claim the cluster that starts at rune 2 and spans one rune\<close>
  "overrunEnv =
     stubEnv\<lparr>Shape := (\<lambda>f input.
        (stubShape f input)\<lparr>Glyphs :=
           map (\<lambda>gl. gl\<lparr>ClusterIndex := 2, RuneCount := 1\<rparr>) (Glyphs (stubShape f input))\<rparr>)\<rparr>"

section \<open>Properties of the UTF-8 offsets\<close>

lemma runeWidth_pos: "bs \<noteq> [] \<Longrightarrow> 0 < runeWidth bs"
  by (cases bs) (auto simp: runeWidth_def decodeRune_def Let_def)

lemma runeWidth_le: "runeWidth bs \<le> length bs"
  by (cases bs) (auto simp: runeWidth_def decodeRune_def Let_def Suc_le_eq not_less split: if_splits)

lemma length_rangeOffsets: "length (rangeOffsets i bs) = length (toRunes bs)"
proof (induction i bs rule: rangeOffsets.induct)
  case (1 i bs)
  then show ?case
    by (subst rangeOffsets.simps, subst toRunes.simps) simp
qed

lemma rangeOffsets_nth:
  "k < length (rangeOffsets i bs) \<Longrightarrow>
   i \<le> rangeOffsets i bs ! k \<and> rangeOffsets i bs ! k < i + length bs \<and>
   drop (rangeOffsets i bs ! k - i) bs = dropRunes k bs"
proof (induction i bs arbitrary: k rule: rangeOffsets.induct)
  case (1 i bs)
  show ?case
  proof (cases "bs = []")
    case True
    with "1.prems" show ?thesis by (simp add: rangeOffsets.simps)
  next
    case False
    let ?w = "runeWidth bs"
    have eq: "rangeOffsets i bs = i # rangeOffsets (i + ?w) (drop ?w bs)"
      using False by (subst rangeOffsets.simps) simp
    have wpos: "0 < ?w" and wle: "?w \<le> length bs"
      using False by (simp_all add: runeWidth_pos runeWidth_le)
    show ?thesis
    proof (cases k)
      case 0
      with eq False show ?thesis by simp
    next
      case (Suc k')
      with "1.prems" eq have "k' < length (rangeOffsets (i + ?w) (drop ?w bs))" by simp
      let ?v = "rangeOffsets (i + ?w) (drop ?w bs) ! k'"
      have IH: "i + ?w \<le> ?v \<and> ?v < i + ?w + length (drop ?w bs) \<and>
          drop (?v - (i + ?w)) (drop ?w bs) = dropRunes k' (drop ?w bs)"
        using "1.IH" [OF False \<open>k' < length (rangeOffsets (i + ?w) (drop ?w bs))\<close>] .
      from IH have a: "i + ?w \<le> ?v" by blast
      from IH have b: "?v < i + ?w + length (drop ?w bs)" by blast
      from IH have c: "drop (?v - (i + ?w)) (drop ?w bs) = dropRunes k' (drop ?w bs)" by blast
      have v: "rangeOffsets i bs ! k = ?v" using eq Suc by simp
      have "?v - (i + ?w) + ?w = ?v - i" using a by simp
      with c have "drop (?v - i) bs = dropRunes k' (drop ?w bs)" by (simp only: drop_drop)
      with a b wle v Suc show ?thesis by simp
    qed
  qed
qed

lemma dropRunes_all: "dropRunes (length (rangeOffsets i bs)) bs = []"
proof (induction i bs rule: rangeOffsets.induct)
  case (1 i bs)
  then show ?case
    by (subst rangeOffsets.simps) simp
qed

lemma toRunes_nth:
  "k < length (toRunes bs) \<Longrightarrow> toRunes bs ! k = fst (decodeRune (dropRunes k bs))"
proof (induction bs arbitrary: k rule: toRunes.induct)
  case (1 bs)
  show ?case
  proof (cases "bs = []")
    case True
    with "1.prems" show ?thesis by (simp add: toRunes.simps)
  next
    case False
    have eq: "toRunes bs = fst (decodeRune bs) # toRunes (drop (runeWidth bs) bs)"
      using False by (subst toRunes.simps) simp
    show ?thesis
    proof (cases k)
      case 0
      with eq show ?thesis by simp
    next
      case (Suc k')
      with "1.prems" eq have "k' < length (toRunes (drop (runeWidth bs) bs))" by simp
      from "1.IH" [OF False this] eq Suc show ?thesis by simp
    qed
  qed
qed

lemma length_clusterIndices: "length (clusterIndices text) = Suc (length (runesOf text))"
  by (simp add: clusterIndices_def runesOf_def length_rangeOffsets)

lemma clusterIndices_nth:
  assumes "k < length (clusterIndices text)"
  shows "0 \<le> clusterIndices text ! k \<and> clusterIndices text ! k \<le> int (length text) \<and>
         drop (nat (clusterIndices text ! k)) (bytesOf text) = dropRunes k (bytesOf text)"
proof (cases "k < length (rangeOffsets 0 (bytesOf text))")
  case True
  from rangeOffsets_nth [OF True] have
    "rangeOffsets 0 (bytesOf text) ! k < length (bytesOf text)"
    "drop (rangeOffsets 0 (bytesOf text) ! k) (bytesOf text) = dropRunes k (bytesOf text)"
    by simp_all
  moreover have "clusterIndices text ! k = int (rangeOffsets 0 (bytesOf text) ! k)"
    using True by (simp add: clusterIndices_def nth_append)
  ultimately show ?thesis by (simp add: bytesOf_def)
next
  case False
  with assms have k: "k = length (rangeOffsets 0 (bytesOf text))"
    by (simp add: clusterIndices_def)
  then have "clusterIndices text ! k = int (length text)"
    by (simp add: clusterIndices_def nth_append)
  moreover have "dropRunes k (bytesOf text) = []"
    unfolding k by (rule dropRunes_all)
  ultimately show ?thesis by (simp add: bytesOf_def)
qed

section \<open>Properties of the shaping loops\<close>

lemma sint_sum_out_of_range:
  fixes a b :: "64 word"
  assumes "n \<le> 2 ^ 63" "0 \<le> sint a" "sint a < n"
    and "sint a + sint b < 0 \<or> n \<le> sint a + sint b"
  shows "sint (a + b) < 0 \<or> n \<le> sint (a + b)"
proof -
  have sb: "sint b < 2 ^ 63" "- (2 ^ 63) \<le> sint b"
    using sint_lt [of b] sint_ge [of b] by simp_all
  have eq: "sint (a + b) = (sint a + sint b + 2 ^ 63) mod 2 ^ 64 - 2 ^ 63"
    by (simp add: sint_word_ariths signed_take_bit_eq_take_bit_shift take_bit_eq_mod)
  show ?thesis
  proof (cases "sint a + sint b < 2 ^ 63")
    case True
    then have "(sint a + sint b + 2 ^ 63) mod 2 ^ 64 = sint a + sint b + 2 ^ 63"
      using assms sb by (intro mod_pos_pos_trivial) simp_all
    with eq assms show ?thesis by simp
  next
    case False
    then have "(sint a + sint b + 2 ^ 63) mod 2 ^ 64 = sint a + sint b + 2 ^ 63 - 2 ^ 64"
      using assms sb by (simp add: mod_pos_geq)
    with eq assms sb show ?thesis by simp
  qed
qed

lemma shapeGlyph_Inr:
  assumes "fst (shapeGlyph env gfo f ind out gl) = Inr g1"
  shows "shapingGlyph g1 = gl \<and>
         0 \<le> sint (ClusterIndex gl) \<and> sint (ClusterIndex gl) < int (length ind) \<and>
         0 \<le> sint (ClusterIndex gl + RuneCount gl) \<and>
         sint (ClusterIndex gl + RuneCount gl) < int (length ind) \<and>
         startIndex g1 = ind ! nat (sint (ClusterIndex gl)) \<and>
         endIndex g1 = ind ! nat (sint (ClusterIndex gl + RuneCount gl)) \<and>
         (\<exists>gf. gfo = Some gf \<and>
            scaledSegments g1 = map (scaleSegment (glyphScale env gf out)) (glyphSegments env gf f out gl))"
  using assms
  by (auto simp: shapeGlyph_def goIndex_def Let_def split: option.splits sum.splits if_splits)

lemma shapeGlyph_Inl:
  assumes "\<not> (0 \<le> sint (ClusterIndex gl) \<and> sint (ClusterIndex gl) < int (length ind)) \<or>
           \<not> (0 \<le> sint (ClusterIndex gl + RuneCount gl) \<and>
              sint (ClusterIndex gl + RuneCount gl) < int (length ind))"
  shows "isl (fst (shapeGlyph env gfo f ind out gl))"
  using assms
  by (auto simp: shapeGlyph_def goIndex_def Let_def split: option.splits sum.splits if_splits)

lemma shapeGlyphs_Inr:
  "shapeGlyphs env gfo f ind out gls = (Inr gs, cs) \<Longrightarrow>
   map (\<lambda>gl. fst (shapeGlyph env gfo f ind out gl)) gls = map Inr gs"
proof (induction gls arbitrary: gs cs)
  case Nil
  then show ?case by simp
next
  case (Cons gl gls)
  then show ?case
    by (auto split: prod.splits sum.splits)
qed

lemma shapeGlyphs_Inl:
  "gl \<in> set gls \<Longrightarrow> isl (fst (shapeGlyph env gfo f ind out gl)) \<Longrightarrow>
   isl (fst (shapeGlyphs env gfo f ind out gls))"
  by (induction gls) (auto split: prod.splits sum.splits)

lemma shapeRuns_outputs:
  "shapeRuns env gfo f text inputs = (Inr (outs, gs), cs) \<Longrightarrow>
   outs = map (\<lambda>input. adjustedOutput env (Shape env f input)) inputs"
proof (induction inputs arbitrary: outs gs cs)
  case Nil
  then show ?case by simp
next
  case (Cons input inputs)
  then show ?case
    by (auto simp: shapeRun_def Let_def split: prod.splits sum.splits)
qed

lemma shapeRuns_glyphs:
  "shapeRuns env gfo f text inputs = (Inr (outs, gs), cs) \<Longrightarrow> g1 \<in> set gs \<Longrightarrow>
   \<exists>input \<in> set inputs. \<exists>gl \<in> set (Glyphs (adjustedOutput env (Shape env f input))).
     fst (shapeGlyph env gfo f (clusterIndices text) (adjustedOutput env (Shape env f input)) gl) = Inr g1"
proof (induction inputs arbitrary: outs gs cs)
  case Nil
  then show ?case by simp
next
  case (Cons input inputs)
  from Cons.prems(1) obtain out gsa csa outs' gsb csb where
    run: "shapeRun env gfo f text input = (Inr (out, gsa), csa)" and
    rest: "shapeRuns env gfo f text inputs = (Inr (outs', gsb), csb)" and
    gs: "gs = gsa @ gsb"
    by (auto split: prod.splits sum.splits)
  from Cons.prems(2) gs consider "g1 \<in> set gsa" | "g1 \<in> set gsb" by auto
  then show ?case
  proof cases
    case 1
    let ?out = "adjustedOutput env (Shape env f input)"
    from run obtain cs' where
      "shapeGlyphs env gfo f (clusterIndices text) ?out (Glyphs ?out) = (Inr gsa, cs')"
      by (auto simp: shapeRun_def Let_def split: prod.splits sum.splits)
    then have "map (\<lambda>gl. fst (shapeGlyph env gfo f (clusterIndices text) ?out gl)) (Glyphs ?out) = map Inr gsa"
      by (rule shapeGlyphs_Inr)
    with 1 have "Inr g1 \<in> set (map (\<lambda>gl. fst (shapeGlyph env gfo f (clusterIndices text) ?out gl)) (Glyphs ?out))"
      by simp
    then show ?thesis by auto
  next
    case 2
    with Cons.IH [OF rest] show ?thesis by auto
  qed
qed

lemma shapeRuns_Inl:
  "input \<in> set inputs \<Longrightarrow> gl \<in> set (Glyphs (adjustedOutput env (Shape env f input))) \<Longrightarrow>
   isl (fst (shapeGlyph env gfo f (clusterIndices text) (adjustedOutput env (Shape env f input)) gl)) \<Longrightarrow>
   isl (fst (shapeRuns env gfo f text inputs))"
proof (induction inputs)
  case Nil
  then show ?case by simp
next
  case (Cons i inputs)
  show ?case
  proof (cases "input = i")
    case True
    with Cons.prems have "isl (fst (shapeGlyphs env gfo f (clusterIndices text)
        (adjustedOutput env (Shape env f i)) (Glyphs (adjustedOutput env (Shape env f i)))))"
      by (auto intro: shapeGlyphs_Inl)
    then have "isl (fst (shapeRun env gfo f text i))"
      by (auto simp: shapeRun_def Let_def split: prod.splits sum.splits)
    then show ?thesis by (auto split: prod.splits sum.splits)
  next
    case False
    with Cons have "isl (fst (shapeRuns env gfo f text inputs))" by auto
    then show ?thesis by (auto split: prod.splits sum.splits)
  qed
qed

lemma shapeImpl_unfold:
  assumes "sources w (Source face) = Some fs" "faces w (sf fs) = Some f0" "sources w g = Some s"
  shows "fst (shapeImpl env g text face w) =
         fst (shapeRuns env (((faces w)(sf fs \<mapsto> f0\<lparr>currentVariations := faceVariations face\<rparr>)) (sf s))
                (f0\<lparr>currentVariations := faceVariations face\<rparr>) text
                (segmentedInputs env (sf fs) text face))"
  using assms by (simp add: shapeImpl_def Let_def split: prod.splits)

lemma shapeGlyph_error:
  "fst (shapeGlyph env gfo f ind out gl) = Inl e \<Longrightarrow>
   e = PanicIndexOutOfRange \<or> e = PanicNilDereference"
  by (auto simp: shapeGlyph_def goIndex_def Let_def split: option.splits sum.splits if_splits)

lemma shapeGlyphs_error:
  "fst (shapeGlyphs env gfo f ind out gls) = Inl e \<Longrightarrow>
   e = PanicIndexOutOfRange \<or> e = PanicNilDereference"
proof (induction gls)
  case Nil
  then show ?case by simp
next
  case (Cons gl gls)
  show ?case
  proof (cases "fst (shapeGlyph env gfo f ind out gl)")
    case (Inl e')
    with Cons.prems have "e' = e" by (auto split: prod.splits sum.splits)
    with Inl shapeGlyph_error show ?thesis by blast
  next
    case (Inr g1)
    with Cons.prems have "fst (shapeGlyphs env gfo f ind out gls) = Inl e"
      by (auto split: prod.splits sum.splits)
    with Cons.IH show ?thesis by blast
  qed
qed

lemma shapeRuns_error:
  "fst (shapeRuns env gfo f text inputs) = Inl e \<Longrightarrow>
   e = PanicIndexOutOfRange \<or> e = PanicNilDereference"
proof (induction inputs)
  case Nil
  then show ?case by simp
next
  case (Cons input inputs)
  show ?case
  proof (cases "fst (shapeRun env gfo f text input)")
    case (Inl e')
    with Cons.prems have e: "e' = e" by (auto split: prod.splits sum.splits)
    from Inl have "fst (shapeGlyphs env gfo f (clusterIndices text)
        (adjustedOutput env (Shape env f input))
        (Glyphs (adjustedOutput env (Shape env f input)))) = Inl e'"
      by (auto simp: shapeRun_def Let_def split: prod.splits sum.splits)
    with e shapeGlyphs_error show ?thesis by blast
  next
    case (Inr r)
    with Cons.prems have "fst (shapeRuns env gfo f text inputs) = Inl e"
      by (auto split: prod.splits sum.splits)
    with Cons.IH show ?thesis by blast
  qed
qed

lemma shapeImpl_error:
  assumes "fst (shapeImpl env g text face w) = Inl e"
  shows "e = PanicIndexOutOfRange \<or> e = PanicNilDereference"
proof (cases "sources w (Source face)")
  case None
  with assms show ?thesis by (simp add: shapeImpl_def)
next
  case fs: (Some fs)
  show ?thesis
  proof (cases "faces w (sf fs)")
    case None
    with fs assms show ?thesis by (simp add: shapeImpl_def)
  next
    case f0: (Some f0)
    show ?thesis
    proof (cases "sources w g")
      case None
      with fs f0 assms show ?thesis
        by (simp add: shapeImpl_def Let_def split: if_splits)
    next
      case (Some s)
      from shapeImpl_unfold [OF fs f0 Some] assms shapeRuns_error show ?thesis
        by metis
    qed
  qed
qed

lemma length_rangeOffsets_le: "length (rangeOffsets i bs) \<le> length bs"
proof (induction i bs rule: rangeOffsets.induct)
  case (1 i bs)
  show ?case
  proof (cases "bs = []")
    case True
    then show ?thesis by (simp add: rangeOffsets.simps)
  next
    case False
    with "1.IH" have "length (rangeOffsets (i + runeWidth bs) (drop (runeWidth bs) bs))
        \<le> length bs - runeWidth bs" by simp
    moreover have "0 < runeWidth bs" "runeWidth bs \<le> length bs"
      using False by (simp_all add: runeWidth_pos runeWidth_le)
    ultimately show ?thesis using False by (subst rangeOffsets.simps) simp
  qed
qed

lemma sint_sum_in_range:
  fixes a b :: "64 word"
  assumes "n \<le> 2 ^ 63" "0 \<le> sint a" "sint a < n" "0 \<le> sint (a + b)" "sint (a + b) < n"
  shows "sint (a + b) = sint a + sint b"
proof -
  have sb: "sint b < 2 ^ 63" "- (2 ^ 63) \<le> sint b"
    using sint_lt [of b] sint_ge [of b] by simp_all
  have eq: "sint (a + b) = (sint a + sint b + 2 ^ 63) mod 2 ^ 64 - 2 ^ 63"
    by (simp add: sint_word_ariths signed_take_bit_eq_take_bit_shift take_bit_eq_mod)
  show ?thesis
  proof (cases "sint a + sint b < 2 ^ 63")
    case True
    then have "(sint a + sint b + 2 ^ 63) mod 2 ^ 64 = sint a + sint b + 2 ^ 63"
      using assms sb by (intro mod_pos_pos_trivial) simp_all
    with eq show ?thesis by simp
  next
    case False
    then have "(sint a + sint b + 2 ^ 63) mod 2 ^ 64 = sint a + sint b + 2 ^ 63 - 2 ^ 64"
      using assms sb by (simp add: mod_pos_geq)
    with eq assms sb show ?thesis by simp
  qed
qed

lemma shapeImpl_glyphs:
  assumes "sources w (Source face) = Some fs" and "faces w (sf fs) = Some f0"
    and "shapeImpl env g text face w = (Inr (outs, gs), w')" and "g1 \<in> set gs"
  shows "\<exists>gfo out gl.
           fst (shapeGlyph env gfo (f0\<lparr>currentVariations := faceVariations face\<rparr>)
                  (clusterIndices text) out gl) = Inr g1"
proof (cases "sources w g")
  case None
  with assms show ?thesis
    by (auto simp: shapeImpl_def Let_def split: if_splits)
next
  case (Some s)
  with assms obtain gfo cs where
    "shapeRuns env gfo (f0\<lparr>currentVariations := faceVariations face\<rparr>) text
       (segmentedInputs env (sf fs) text face) = (Inr (outs, gs), cs)"
    by (auto simp: shapeImpl_def Let_def split: prod.splits)
  from shapeRuns_glyphs [OF this \<open>g1 \<in> set gs\<close>] show ?thesis by blast
qed

section \<open>What shaping leaves unchanged\<close>

lemma shapeImpl_sources: "sources (snd (shapeImpl env g text face w)) = sources w"
  by (simp add: shapeImpl_def Let_def split: option.splits prod.splits)

lemma shapeCreate_sources: "sources (snd (shapeCreate env g text face w)) = sources w"
proof -
  obtain r w' where r: "shapeImpl env g text face w = (r, w')"
    by (cases "shapeImpl env g text face w")
  with shapeImpl_sources [of env g "text" face w] have "sources w' = sources w" by simp
  with r show ?thesis
    by (cases r) (auto simp: shapeCreate_def split: prod.splits)
qed

lemma getOrCreate_world:
  "snd (snd (getOrCreate eq c key create w)) =
     (case cacheFind eq key (entries c) of Some v \<Rightarrow> w | None \<Rightarrow> snd (create w))"
  by (simp add: getOrCreate_def split: option.splits prod.splits sum.splits)

lemma shape_frame:
  assumes "p \<noteq> g"
  shows "sources (snd (shape env g text face w)) p = sources w p"
proof (cases "copyCheck g w")
  case (Inl e)
  then show ?thesis by (simp add: shape_def)
next
  case (Inr u)
  then obtain s where s: "sources w g = Some s"
    by (auto simp: copyCheck_def split: option.splits)
  let ?r = "getOrCreate goTextOutputCacheKey_eq (outputCache s)
              (outputCacheKey env face text) (shapeCreate env g text face) w"
  have "sources (snd (snd ?r)) = sources w"
    using shapeCreate_sources [of env g "text" face w]
    by (simp add: getOrCreate_world split: option.splits)
  then show ?thesis
    using Inr s assms
    by (auto simp: shape_def setOutputCache_def split: prod.splits sum.splits)
qed

section \<open>The loop over the loaders of a collection\<close>

lemma collectionLoop_fail:
  "\<exists>l \<in> set ls. isl (NewFont env l) \<Longrightarrow>
   \<exists>e. fst (collectionLoop env i ls srcs w) = (None, Some e) \<and> (\<exists>l \<in> set ls. NewFont env l = Inl e)"
proof (induction ls arbitrary: i srcs w)
  case Nil
  then show ?case by simp
next
  case (Cons l ls)
  show ?case
  proof (cases "NewFont env l")
    case (Inl e)
    then show ?thesis by auto
  next
    case (Inr fnt)
    with Cons.prems have "\<exists>l \<in> set ls. isl (NewFont env l)" by auto
    from Cons.IH [OF this] Inr show ?thesis
      by (simp add: newFace_def newGoTextFaceSource_def)
  qed
qed

lemma collectionLoop_ok:
  "\<forall>l \<in> set ls. \<not> isl (NewFont env l) \<Longrightarrow> length srcs = i + length ls \<Longrightarrow>
   fst (collectionLoop env i ls srcs w) =
     (Some (take i srcs @ map (\<lambda>j. nextFree w + 2 * j + 1) [0 ..< length ls]), None)"
proof (induction ls arbitrary: i srcs w)
  case Nil
  then show ?case by simp
next
  case (Cons l ls)
  from Cons.prems obtain fnt where fnt: "NewFont env l = Inr fnt"
    by (cases "NewFont env l") auto
  let ?n = "nextFree w"
  let ?w2 = "snd (newGoTextFaceSource env ?n (snd (newFace fnt w)))"
  have n2: "nextFree ?w2 = ?n + 2"
    by (simp add: newFace_def newGoTextFaceSource_def)
  have step: "collectionLoop env i (l # ls) srcs w =
      collectionLoop env (Suc i) ls (srcs[i := Suc ?n]) ?w2"
    using fnt by (simp add: newFace_def newGoTextFaceSource_def)
  have "fst (collectionLoop env (Suc i) ls (srcs[i := Suc ?n]) ?w2) =
      (Some (take (Suc i) (srcs[i := Suc ?n]) @
         map (\<lambda>j. nextFree ?w2 + 2 * j + 1) [0 ..< length ls]), None)"
    using Cons.prems by (intro Cons.IH) simp_all
  moreover have "take (Suc i) (srcs[i := Suc ?n]) = take i srcs @ [Suc ?n]"
    using Cons.prems by (simp add: take_Suc_conv_app_nth)
  moreover have "map (\<lambda>j. ?n + 2 * j + 1) [0 ..< length (l # ls)] =
      Suc ?n # map (\<lambda>j. ?n + 2 + 2 * j + 1) [0 ..< length ls]"
    by (simp add: upt_conv_Cons map_Suc_upt [symmetric] del: upt_Suc)
  ultimately show ?case using step n2 by simp
qed

lemma collectionLoop_old:
  "p < nextFree w \<Longrightarrow>
   sources (snd (collectionLoop env i ls srcs w)) p = sources w p \<and>
   faces (snd (collectionLoop env i ls srcs w)) p = faces w p"
proof (induction ls arbitrary: i srcs w)
  case Nil
  then show ?case by simp
next
  case (Cons l ls)
  show ?case
  proof (cases "NewFont env l")
    case (Inl e)
    then show ?thesis by simp
  next
    case (Inr fnt)
    let ?w2 = "snd (newGoTextFaceSource env (nextFree w) (snd (newFace fnt w)))"
    have step: "collectionLoop env i (l # ls) srcs w =
        collectionLoop env (Suc i) ls (srcs[i := Suc (nextFree w)]) ?w2"
      using Inr by (simp add: newFace_def newGoTextFaceSource_def)
    have "p < nextFree ?w2" using Cons.prems
      by (simp add: newFace_def newGoTextFaceSource_def)
    from Cons.IH [OF this] have
      "sources (snd (collectionLoop env (Suc i) ls (srcs[i := Suc (nextFree w)]) ?w2)) p = sources ?w2 p \<and>
       faces (snd (collectionLoop env (Suc i) ls (srcs[i := Suc (nextFree w)]) ?w2)) p = faces ?w2 p" .
    moreover have "sources ?w2 p = sources w p" "faces ?w2 p = faces w p"
      using Cons.prems by (simp_all add: newFace_def newGoTextFaceSource_def)
    ultimately show ?thesis using step by simp
  qed
qed

lemma collectionLoop_new:
  "\<forall>l \<in> set ls. \<not> isl (NewFont env l) \<Longrightarrow> j < length ls \<Longrightarrow>
   \<exists>s. sources (snd (collectionLoop env i ls srcs w)) (nextFree w + 2 * j + 1) = Some s \<and>
       addr s = nextFree w + 2 * j + 1 \<and> outputCache s = newCache 512 \<and>
       glyphImageCache s = None \<and> sf s = nextFree w + 2 * j \<and>
       faces (snd (collectionLoop env i ls srcs w)) (sf s) =
         Some \<lparr>Font = projr (NewFont env (ls ! j)), currentVariations = []\<rparr>"
proof (induction ls arbitrary: i srcs w j)
  case Nil
  then show ?case by simp
next
  case (Cons l ls)
  from Cons.prems obtain fnt where fnt: "NewFont env l = Inr fnt"
    by (cases "NewFont env l") auto
  let ?n = "nextFree w"
  let ?w2 = "snd (newGoTextFaceSource env ?n (snd (newFace fnt w)))"
  let ?r = "collectionLoop env (Suc i) ls (srcs[i := Suc ?n]) ?w2"
  have n2: "nextFree ?w2 = ?n + 2"
    by (simp add: newFace_def newGoTextFaceSource_def)
  have step: "collectionLoop env i (l # ls) srcs w = ?r"
    using fnt by (simp add: newFace_def newGoTextFaceSource_def)
  show ?case
  proof (cases j)
    case 0
    have "Suc ?n < nextFree ?w2" "?n < nextFree ?w2" using n2 by simp_all
    from collectionLoop_old [OF this(1)] collectionLoop_old [OF this(2)]
    have "sources (snd ?r) (Suc ?n) = sources ?w2 (Suc ?n)" "faces (snd ?r) ?n = faces ?w2 ?n"
      by blast+
    then show ?thesis using step 0 fnt
      by (simp add: newFace_def newGoTextFaceSource_def)
  next
    case (Suc j')
    with Cons.prems have "\<forall>l \<in> set ls. \<not> isl (NewFont env l)" "j' < length ls" by simp_all
    from Cons.IH [OF this, of "Suc i" "srcs[i := Suc ?n]" ?w2] show ?thesis
      using step Suc n2 by (simp add: add.assoc)
  qed
qed

section \<open>Properties of the cache\<close>


lemma f64_eq_trans: "f64_eq a b \<Longrightarrow> f64_eq b c \<Longrightarrow> f64_eq a c"
  by (auto simp: f64_eq_def)

lemma key_eq_trans:
  "goTextOutputCacheKey_eq a b \<Longrightarrow> goTextOutputCacheKey_eq b c \<Longrightarrow> goTextOutputCacheKey_eq a c"
  by (auto simp: goTextOutputCacheKey_eq_def intro: f64_eq_trans)

lemma cacheFind_find:
  "cacheFind eq key es = Some v \<Longrightarrow> \<exists>k. find (\<lambda>e. eq (fst e) key) es = Some (k, v) \<and> eq k key"
  by (induction es) (auto split: if_splits)

lemma cacheFind_None_find:
  "cacheFind eq key es = None \<Longrightarrow> find (\<lambda>e. eq (fst e) key) es = None"
  by (induction es) (auto split: if_splits)

lemma getOrCreate_front:
  assumes "0 < capacity c"
    and "getOrCreate eq c key create w = (Inr v, c', w')"
    and "\<And>v b w'. create w = (Inr (v, b), w') \<Longrightarrow> b"
  shows "\<exists>k rest. entries c' = (k, v) # rest \<and> (k = key \<or> eq k key) \<and> capacity c' = capacity c"
proof (cases "cacheFind eq key (entries c)")
  case None
  with assms(2) obtain b where cr: "create w = (Inr (v, b), w')" and
    c': "c' = (if b then c\<lparr>entries := take (nat (capacity c)) ((key, v) # entries c)\<rparr> else c)"
    by (auto simp: getOrCreate_def split: prod.splits sum.splits)
  from assms(3) [OF cr] have b by simp
  moreover from assms(1) obtain n where "nat (capacity c) = Suc n"
    by (cases "nat (capacity c)") auto
  ultimately show ?thesis using c' by simp
next
  case (Some v0)
  with assms(2) have v: "v0 = v" and c': "c' = c\<lparr>entries := cacheTouch eq key (entries c)\<rparr>"
    by (auto simp: getOrCreate_def)
  from cacheFind_find [OF Some] v obtain k where
    "find (\<lambda>e. eq (fst e) key) (entries c) = Some (k, v)" "eq k key" by blast
  then show ?thesis using c' by (simp add: cacheTouch_def)
qed

lemma getOrCreate_hit_front:
  assumes "entries c = (k, v) # rest" and "eq k key"
  shows "getOrCreate eq c key create w = (Inr v, c, w)"
  using assms by (simp add: getOrCreate_def cacheTouch_def)

lemma shapeCreate_cacheable: "shapeCreate env g text face w = (Inr (v, b), w') \<Longrightarrow> b"
  by (auto simp: shapeCreate_def split: prod.splits sum.splits)

lemma setOutputCache_same:
  "sources w g = Some s \<Longrightarrow> setOutputCache g (outputCache s) w = w"
  by (simp add: setOutputCache_def fun_upd_idem)

section \<open>Properties of the key comparison\<close>

lemma mask63: "(0x7FFFFFFFFFFFFFFF :: 64 word) = mask 63"
  by (simp add: mask_eq_exp_minus_1)

lemma f64_positive_and:
  assumes "f64_positive a"
  shows "a AND 0x7FFFFFFFFFFFFFFF = a"
proof -
  from assms have "unat a \<le> 0x7FF0000000000000"
    by (simp add: f64_positive_def word_le_nat_alt)
  then have "unat a < 2 ^ 63" by simp
  then have "a < 2 ^ 63"
    by (simp add: word_less_nat_alt)
  then show ?thesis
    unfolding mask63 by (simp add: less_mask_eq)
qed

lemma f64_positive_not_NaN: "f64_positive a \<Longrightarrow> \<not> f64_isNaN a"
  using f64_positive_and [of a] by (auto simp: f64_isNaN_def f64_positive_def)

lemma f64_positive_not_zero: "f64_positive a \<Longrightarrow> \<not> f64_isZero a"
  using f64_positive_and [of a] by (auto simp: f64_isZero_def f64_positive_def)

lemma f64_eq_positive:
  "f64_positive a \<Longrightarrow> f64_eq a b \<longleftrightarrow> \<not> f64_isNaN b \<and> a = b"
  by (auto simp: f64_eq_def f64_positive_not_NaN f64_positive_not_zero)













section \<open>Properties of the size-indexed image caches\<close>

lemma mapStore_absent: "mapFind k m = None \<Longrightarrow> mapStore k c m = m @ [(k, c)]"
  by (induction m) (auto split: if_splits)

lemma mapFind_append_new:
  "mapFind k m = None \<Longrightarrow> \<not> f64_isNaN k \<Longrightarrow> mapFind k (m @ [(k, c)]) = Some c"
  by (induction m) (auto simp: f64_eq_def split: if_splits)

lemma mapStore_present_sizes:
  "mapFind k m = Some c \<Longrightarrow> capacity c' = capacity c \<Longrightarrow>
   map (\<lambda>(k, c). (k, capacity c)) (mapStore k c' m) = map (\<lambda>(k, c). (k, capacity c)) m"
  by (induction m) (auto split: if_splits)

lemma mapFind_mapStore: "mapFind k m = Some c \<Longrightarrow> mapFind k (mapStore k c' m) = Some c'"
  by (induction m) (auto split: if_splits)

lemma getOrCreate_capacity:
  "capacity (fst (snd (getOrCreate eq c key create w))) = capacity c"
  by (simp add: getOrCreate_def split: option.splits prod.splits sum.splits)

lemma sizeCaches_cases:
  assumes "\<not> f64_isNaN (Size face)"
  shows "(case mapFind (Size face) (case glyphImageCache s of None \<Rightarrow> [] | Some m \<Rightarrow> m) of
           None \<Rightarrow>
             sizeCaches env s face =
               (case glyphImageCache s of None \<Rightarrow> [] | Some m \<Rightarrow> m) @
               [(Size face, newCache (sint (128 * glyphVariationCount env face)))] \<and>
             mapFind (Size face) (sizeCaches env s face) =
               Some (newCache (sint (128 * glyphVariationCount env face)))
         | Some c \<Rightarrow>
             sizeCaches env s face = (case glyphImageCache s of None \<Rightarrow> [] | Some m \<Rightarrow> m) \<and>
             mapFind (Size face) (sizeCaches env s face) = Some c)"
  using assms
  by (auto simp: sizeCaches_def Let_def mapStore_absent mapFind_append_new split: option.splits)

lemma imageCaches_setGlyphImageCache:
  "sources w g = Some s \<Longrightarrow> imageCaches g (setGlyphImageCache g m w) = m"
  by (simp add: imageCaches_def setGlyphImageCache_def)

lemma imageCaches_setSizeCache:
  "imageCaches g (setSizeCache g k c w) = mapStore k c (imageCaches g w) \<or>
   (imageCaches g (setSizeCache g k c w) = [] \<and> imageCaches g w = [])"
  by (auto simp: imageCaches_def setSizeCache_def split: option.splits)


lemma setGlyphImageCache_same:
  "sources w g = Some s \<Longrightarrow> glyphImageCache s = Some m \<Longrightarrow> setGlyphImageCache g m w = w"
  by (simp add: setGlyphImageCache_def fun_upd_idem)

lemma shape_imageCaches: "imageCaches g' (snd (shape env g text face w)) = imageCaches g' w"
proof (cases "copyCheck g w")
  case (Inl e)
  then show ?thesis by (simp add: shape_def)
next
  case (Inr u)
  then obtain s where s: "sources w g = Some s"
    by (auto simp: copyCheck_def split: option.splits)
  let ?r = "getOrCreate goTextOutputCacheKey_eq (outputCache s)
              (outputCacheKey env face text) (shapeCreate env g text face) w"
  have "sources (snd (snd ?r)) = sources w"
    using shapeCreate_sources [of env g "text" face w]
    by (simp add: getOrCreate_world split: option.splits)
  then show ?thesis
    using Inr s
    by (auto simp: shape_def setOutputCache_def imageCaches_def split: prod.splits sum.splits)
qed

section \<open>Properties of the \<open>float32\<close> product\<close>

lemma f32_make_parts:
  assumes "m < 2 ^ 31"
  shows "f32_mag (f32_make s m) = m" and "f32_sign (f32_make s m) = s"
proof -
  have "(if s then 2 ^ 31 else 0) + m < (2 ^ 32 :: nat)" using assms by simp
  moreover have "unat (f32_make s m) = ((if s then 2 ^ 31 else 0) + m) mod 2 ^ LENGTH(32)"
    unfolding f32_make_def by (rule unat_of_nat)
  ultimately have u: "unat (f32_make s m) = (if s then 2 ^ 31 else 0) + m"
    by simp
  show "f32_mag (f32_make s m) = m" using assms by (simp add: f32_mag_def u)
  show "f32_sign (f32_make s m) = s" using assms by (simp add: f32_sign_def u)
qed

lemma f32_mag_less: "f32_mag a < 2 ^ 31"
  by (simp add: f32_mag_def)

lemma f32_neg_parts: "f32_mag (f32_neg a) = f32_mag a" "f32_sign (f32_neg a) = (\<not> f32_sign a)"
  using f32_make_parts [OF f32_mag_less, of "\<not> f32_sign a" a] by (simp_all add: f32_neg_def)

lemma f32_zero_parts: "f32_mag 0 = 0" "\<not> f32_sign 0" "f32_key 0 = 0"
  by (simp_all add: f32_mag_def f32_sign_def f32_key_def)

lemma f32_positive:
  assumes "f32_lt 0 a"
  shows "\<not> f32_isNaN a" "\<not> f32_sign a" "0 < f32_mag a" "f32_mag a \<le> 0x7F800000"
  using assms
  by (auto simp: f32_lt_def f32_key_def f32_zero_parts f32_isNaN_def split: if_splits)

lemma f32_round_le: "f32_round M E \<le> 0x7F800000"
  by (simp add: f32_round_def Let_def)

lemma f32_mul_positive_negative:
  assumes "f32_lt 0 a" and "f32_lt 0 b"
  shows "\<exists>m \<le> 0x7F800000. f32_mul a (f32_neg b) = f32_make True m \<and>
           m = (if f32_isInf a \<or> f32_isInf b then 0x7F800000
                else f32_round (f32_sig a * f32_sig b) (f32_ex a + f32_ex b))"
proof -
  note pa = f32_positive [OF assms(1)] and pb = f32_positive [OF assms(2)]
  have nb: "\<not> f32_isNaN (f32_neg b)" "f32_mag (f32_neg b) = f32_mag b" "f32_sign (f32_neg b)"
    "f32_isInf (f32_neg b) = f32_isInf b" "f32_sig (f32_neg b) = f32_sig b"
    "f32_ex (f32_neg b) = f32_ex b"
    using pb by (simp_all add: f32_isNaN_def f32_isInf_def f32_sig_def f32_ex_def f32_neg_parts)
  show ?thesis
    using pa pb nb f32_round_le [of "f32_sig a * f32_sig b" "f32_ex a + f32_ex b"]
    by (auto simp: f32_mul_def)
qed

lemma f32_negative_or_zero:
  assumes "m \<le> 0x7F800000"
  shows "f32_le (f32_make True m) 0" "\<not> f32_lt 0 (f32_make True m)" "f32_sign (f32_make True m)"
    "f32_lt (f32_make True m) 0 \<longleftrightarrow> 0 < m"
  using assms
  by (auto simp: f32_le_def f32_lt_def f32_key_def f32_isNaN_def f32_make_parts f32_zero_parts)


lemma bitlen_gt: "2 ^ n \<le> M \<Longrightarrow> n < bitlen M"
proof (induction n arbitrary: M)
  case 0
  then show ?case by (subst bitlen.simps) simp
next
  case (Suc n)
  then have "2 ^ n \<le> M div 2" by simp
  moreover from Suc.prems have "M \<noteq> 0"
    by (cases "M = 0") simp_all
  ultimately show ?case using Suc.IH [of "M div 2"] by (subst bitlen.simps) simp
qed

lemma f32_round_pos:
  assumes "2 ^ 46 \<le> M" and "129 \<le> E"
  shows "0 < f32_round M E"
proof -
  from assms(1) have "46 < bitlen M" by (rule bitlen_gt)
  with assms(2) have "1 \<le> E + bitlen M - 175" by simp
  then have "2 ^ 23 \<le> (E + bitlen M - 175) * 2 ^ 23" by simp
  moreover from assms(1) have "M \<noteq> 0" by auto
  ultimately show ?thesis
    by (simp add: f32_round_def Let_def min_def del: One_nat_def) linarith
qed

lemma f32_at_least:
  assumes "f32_le c a" and "\<not> f32_sign c" and "0 < f32_mag c" and "e * 2 ^ 23 \<le> f32_mag c" and "0 < e"
  shows "f32_lt 0 a" and "e \<le> f32_ex a" and "2 ^ 23 \<le> f32_sig a"
proof -
  from assms(1,2,3) have na: "\<not> f32_isNaN a" and sa: "\<not> f32_sign a" and ma: "f32_mag c \<le> f32_mag a"
    by (auto simp: f32_le_def f32_key_def split: if_splits)
  with assms(3) show "f32_lt 0 a"
    by (simp add: f32_lt_def f32_key_def f32_zero_parts f32_isNaN_def)
  from ma assms(4) have "e * 2 ^ 23 \<le> f32_mag a" by simp
  then have d: "e \<le> f32_mag a div 2 ^ 23"
    by (simp add: less_eq_div_iff_mult_less_eq)
  with assms(5) show "e \<le> f32_ex a" "2 ^ 23 \<le> f32_sig a"
    by (auto simp: f32_ex_def f32_sig_def)
qed

lemma f32_mul_strictly_negative:
  assumes "f32_le 0x3F800000 a" and "f32_le 0x01000000 b"
  shows "f32_lt (f32_mul a (f32_neg b)) 0"
proof -
  have c1: "\<not> f32_sign 0x3F800000" "0 < f32_mag 0x3F800000" "127 * 2 ^ 23 \<le> f32_mag 0x3F800000"
    and c2: "\<not> f32_sign 0x01000000" "0 < f32_mag 0x01000000" "2 * 2 ^ 23 \<le> f32_mag 0x01000000"
    by (simp_all add: f32_sign_def f32_mag_def)
  note a = f32_at_least [OF assms(1) c1, simplified]
  note b = f32_at_least [OF assms(2) c2, simplified]
  from f32_mul_positive_negative [OF a(1) b(1)] obtain m where
    m: "m \<le> 0x7F800000" "f32_mul a (f32_neg b) = f32_make True m"
      "m = (if f32_isInf a \<or> f32_isInf b then 0x7F800000
            else f32_round (f32_sig a * f32_sig b) (f32_ex a + f32_ex b))"
    by blast
  have "2 ^ 23 * 2 ^ 23 \<le> f32_sig a * f32_sig b"
    using a(3) b(3) by (intro mult_le_mono) simp_all
  then have "2 ^ 46 \<le> f32_sig a * f32_sig b" by simp
  moreover have "129 \<le> f32_ex a + f32_ex b" using a(2) b(2) by simp
  ultimately have "0 < f32_round (f32_sig a * f32_sig b) (f32_ex a + f32_ex b)"
    by (rule f32_round_pos)
  with m(3) have "0 < m" by simp
  with m(1,2) f32_negative_or_zero(4) [of m] show ?thesis by simp
qed

section \<open>Evaluation of the stub environment\<close>

lemmas f32_eval = f32_lt_def f32_le_def f32_key_def f32_neg_def f32_mul_def f32_isNaN_def
  f32_isInf_def f32_mag_def f32_make_def f32_sign_def f32_round_def f32_sig_def f32_ex_def
  bitlen.simps Let_def

lemmas utf8_eval = clusterIndices_def bytesOf_def rangeOffsets.simps runeWidth_def
  decodeRune_def runesOf_def toRunes.simps

lemmas stub_eval = stubEnv_def stubFace_def stubWorld_def stubShape_def stubSplit_def
  stubPoint_def newGoTextFaceSource_def newCache_def upt_rec

lemmas shape_eval = shapeImpl_def segmentedInputs_def shapingInput_def shapeRun_def
  adjustedOutput_def shapeGlyph_def glyphCalls_def glyphSegments_def glyphScale_def scale_def
  scaleSegment_def scalePoint_def goIndex_def

lemma stub_source:
  "sources stubWorld 2 =
     Some \<lparr>sf = 1, metadata = \<lparr>Family = ''Stub'', StyleFlags = 0\<rparr>,
           outputCache = \<lparr>capacity = 512, entries = []\<rparr>, glyphImageCache = None, addr = 2\<rparr>"
  by (simp add: stubWorld_def newGoTextFaceSource_def newCache_def stubEnv_def)

lemma stub_face: "faces stubWorld 1 = Some \<lparr>Font = 7, currentVariations = []\<rparr>"
  by (simp add: stubWorld_def newGoTextFaceSource_def)

lemma stub_face_source:
  "sources stubWorld (Source (stubFace d)) =
     Some \<lparr>sf = 1, metadata = \<lparr>Family = ''Stub'', StyleFlags = 0\<rparr>,
           outputCache = \<lparr>capacity = 512, entries = []\<rparr>, glyphImageCache = None, addr = 2\<rparr>"
  using stub_source by (simp add: stubFace_def)

lemma stub_source_face:
  "faces stubWorld (sf \<lparr>sf = 1, metadata = \<lparr>Family = ''Stub'', StyleFlags = 0\<rparr>,
           outputCache = \<lparr>capacity = 512, entries = []\<rparr>, glyphImageCache = None, addr = 2\<rparr>)
      = Some \<lparr>Font = 7, currentVariations = []\<rparr>"
  using stub_face by simp

section \<open>Claims\<close>

text \<open>
  C1. After a call of \<open>shape\<close> that returned a result, a call with a text and a face
  whose cache key equals the first one's returns the same outputs and glyphs and leaves
  the whole state as it was: no call to the segmenter, the shaper or the font is
  recorded, and the variations of the font are not set again. The shaping cache has a
  positive capacity, as the one made by \<open>newGoTextFaceSource\<close> has.
\<close>

theorem shape_cached:
  assumes "sources w g = Some s" and "0 < capacity (outputCache s)"
    and "shape env g text face w = (Inr r, w1)"
    and "goTextOutputCacheKey_eq (outputCacheKey env face text) (outputCacheKey env face' text')"
  shows "shape env g text' face' w1 = (Inr r, w1)"
proof -
  let ?key = "outputCacheKey env face text"
  let ?key' = "outputCacheKey env face' text'"
  from assms(1,3) have ad: "addr s = g"
    by (auto simp: shape_def copyCheck_def split: if_splits)
  obtain rv c' w' where goc: "getOrCreate goTextOutputCacheKey_eq (outputCache s) ?key
      (shapeCreate env g text face) w = (rv, c', w')"
    by (cases "getOrCreate goTextOutputCacheKey_eq (outputCache s) ?key (shapeCreate env g text face) w") auto
  with assms(1,3) ad obtain v where rv: "rv = Inr v" and r: "r = (outputs v, glyphs v)"
    and w1: "w1 = setOutputCache g c' w'"
    by (cases rv) (auto simp: shape_def copyCheck_def)
  have "w' = (case cacheFind goTextOutputCacheKey_eq ?key (entries (outputCache s)) of
                Some v \<Rightarrow> w | None \<Rightarrow> snd (shapeCreate env g text face w))"
    using getOrCreate_world [of goTextOutputCacheKey_eq "outputCache s" ?key
        "shapeCreate env g text face" w] goc by simp
  then have "sources w' = sources w"
    using shapeCreate_sources [of env g "text" face w] by (simp split: option.splits)
  with assms(1) w1 have s1: "sources w1 g = Some (s\<lparr>outputCache := c'\<rparr>)"
    by (simp add: setOutputCache_def)
  from getOrCreate_front [OF assms(2) goc [unfolded rv]] shapeCreate_cacheable
  obtain k rest where front: "entries c' = (k, v) # rest"
    and k: "k = ?key \<or> goTextOutputCacheKey_eq k ?key"
    by blast
  from k assms(4) have "goTextOutputCacheKey_eq k ?key'"
    by (auto intro: key_eq_trans)
  with front have "getOrCreate goTextOutputCacheKey_eq c' ?key' (shapeCreate env g text' face') w1
      = (Inr v, c', w1)"
    by (rule getOrCreate_hit_front)
  moreover have "setOutputCache g c' w1 = w1"
    using setOutputCache_same [OF s1] by simp
  ultimately show ?thesis
    using s1 ad r by (simp add: shape_def copyCheck_def)
qed

theorem shape_cached_witness:
  "shape stubEnv 2 ''AB'' (stubFace DirectionLeftToRight)
     (snd (shape stubEnv 2 ''AB'' (stubFace DirectionLeftToRight) stubWorld))
     = shape stubEnv 2 ''AB'' (stubFace DirectionLeftToRight) stubWorld \<and>
   \<not> isl (fst (shape stubEnv 2 ''AB'' (stubFace DirectionLeftToRight) stubWorld)) \<and>
   calls (snd (shape stubEnv 2 ''AB'' (stubFace DirectionLeftToRight) stubWorld)) =
     [CallSetVariations, CallSplit, CallShape, CallAdjustBaselines, CallGlyphData 65, CallUpem,
      CallShape, CallAdjustBaselines, CallGlyphData 66, CallUpem]"
proof -
  let ?first = "shape stubEnv 2 ''AB'' (stubFace DirectionLeftToRight) stubWorld"
  have ok: "\<not> isl (fst ?first)"
    by (simp add: shape_def copyCheck_def stub_source getOrCreate_def shapeCreate_def
        stub_eval shape_eval utf8_eval f32_eval)
  then obtain r w1 where first: "?first = (Inr r, w1)"
    by (cases ?first; cases "fst ?first") auto
  have cap: "0 < capacity (outputCache \<lparr>sf = 1, metadata = \<lparr>Family = ''Stub'', StyleFlags = 0\<rparr>,
           outputCache = \<lparr>capacity = 512, entries = []\<rparr>, glyphImageCache = None, addr = 2\<rparr>)"
    by simp
  have eq: "goTextOutputCacheKey_eq
      (outputCacheKey stubEnv (stubFace DirectionLeftToRight) ''AB'')
      (outputCacheKey stubEnv (stubFace DirectionLeftToRight) ''AB'')"
    by (simp add: goTextOutputCacheKey_eq_def outputCacheKey_def stubFace_def f64_eq_def
        f64_isNaN_def)
  have work: "calls (snd ?first) =
     [CallSetVariations, CallSplit, CallShape, CallAdjustBaselines, CallGlyphData 65, CallUpem,
      CallShape, CallAdjustBaselines, CallGlyphData 66, CallUpem]"
    by (simp add: shape_def copyCheck_def stub_source getOrCreate_def shapeCreate_def
        setOutputCache_def stub_eval shape_eval utf8_eval f32_eval)
  from shape_cached [OF stub_source cap first eq] first ok work show ?thesis by simp
qed

text \<open>
  C2. Claimed: a raw outline coordinate \<open>y > 0\<close> scaled by \<open>-scale\<close> with
  \<open>scale > 0\<close> is \<open>< 0\<close>. The product is a \<open>float32\<close> product: for the smallest
  positive \<open>y\<close> (bits \<open>0x00000001\<close>) and \<open>scale = 0.5\<close> it rounds to negative
  zero, which is not \<open>< 0\<close>.
\<close>

theorem scaled_y_not_negative:
  "f32_lt 0 (Y \<lparr>X = 0, Y = 0x00000001\<rparr>) \<and> f32_lt 0 0x3F000000 \<and>
   Y (scalePoint 0x3F000000 \<lparr>X = 0, Y = 0x00000001\<rparr>) = 0x80000000 \<and>
   \<not> f32_lt (Y (scalePoint 0x3F000000 \<lparr>X = 0, Y = 0x00000001\<rparr>)) 0"
  by (simp add: scalePoint_def f32_eval)

text \<open>
  C2, as the code has it: the scale of a glyph is the \<open>float64\<close> quotient of the
  output's size by the units per em of the font, converted to \<open>float32\<close>; the scaled
  segments of a glyph are its segments with, in each of the three arguments, \<open>X\<close>
  multiplied by the scale and \<open>Y\<close> by the negated scale. For \<open>y > 0\<close> and
  \<open>scale > 0\<close> the scaled \<open>Y\<close> has its sign bit set: it is \<open>\<le> 0\<close> and never
  \<open>> 0\<close>; it is \<open>< 0\<close> whenever \<open>y \<ge> 1\<close> and \<open>scale \<ge> 2^-125\<close> (bits
  \<open>0x01000000\<close>).
\<close>

theorem scaling_of_segments:
  "glyphScale env gf out =
     f32_of_f64 env (f64_div env (fixed26_6ToFloat64 env (oSize out))
                       (f64_of_uint16 env (Upem env gf))) \<and>
   (\<forall>g1. fst (shapeGlyph env (Some gf) f ind out gl) = Inr g1 \<longrightarrow>
      scaledSegments g1 =
        map (scaleSegment (glyphScale env gf out)) (glyphSegments env gf f out gl)) \<and>
   Op (scaleSegment sc seg) = Op seg \<and>
   Args (scaleSegment sc seg) =
     (case Args seg of (a0, a1, a2) \<Rightarrow> (scalePoint sc a0, scalePoint sc a1, scalePoint sc a2)) \<and>
   X (scalePoint sc p) = f32_mul (X p) sc \<and>
   Y (scalePoint sc p) = f32_mul (Y p) (f32_neg sc) \<and>
   (f32_lt 0 (Y p) \<and> f32_lt 0 sc \<longrightarrow>
      f32_le (Y (scalePoint sc p)) 0 \<and> \<not> f32_lt 0 (Y (scalePoint sc p)) \<and>
      f32_sign (Y (scalePoint sc p))) \<and>
   (f32_le 0x3F800000 (Y p) \<and> f32_le 0x01000000 sc \<longrightarrow> f32_lt (Y (scalePoint sc p)) 0)"
proof (intro conjI allI impI)
  show "glyphScale env gf out =
     f32_of_f64 env (f64_div env (fixed26_6ToFloat64 env (oSize out))
                       (f64_of_uint16 env (Upem env gf)))"
    by (simp add: glyphScale_def scale_def)
next
  fix g1
  assume "fst (shapeGlyph env (Some gf) f ind out gl) = Inr g1"
  from shapeGlyph_Inr [OF this]
  show "scaledSegments g1 =
      map (scaleSegment (glyphScale env gf out)) (glyphSegments env gf f out gl)"
    by auto
next
  show "Op (scaleSegment sc seg) = Op seg"
    by (simp add: scaleSegment_def split: prod.splits)
  show "Args (scaleSegment sc seg) =
     (case Args seg of (a0, a1, a2) \<Rightarrow> (scalePoint sc a0, scalePoint sc a1, scalePoint sc a2))"
    by (simp add: scaleSegment_def split: prod.splits)
  show "X (scalePoint sc p) = f32_mul (X p) sc"
    by (simp add: scalePoint_def)
  show y: "Y (scalePoint sc p) = f32_mul (Y p) (f32_neg sc)"
    by (simp add: scalePoint_def)
next
  assume "f32_lt 0 (Y p) \<and> f32_lt 0 sc"
  then have a: "f32_lt 0 (Y p)" and b: "f32_lt 0 sc" by simp_all
  from f32_mul_positive_negative [OF a b] obtain m where
    m: "m \<le> 0x7F800000" "f32_mul (Y p) (f32_neg sc) = f32_make True m" by blast
  have y: "Y (scalePoint sc p) = f32_make True m"
    using m(2) by (simp add: scalePoint_def)
  from f32_negative_or_zero [OF m(1)] y
  show "f32_le (Y (scalePoint sc p)) 0" "\<not> f32_lt 0 (Y (scalePoint sc p))"
    "f32_sign (Y (scalePoint sc p))"
    by simp_all
next
  assume "f32_le 0x3F800000 (Y p) \<and> f32_le 0x01000000 sc"
  then have "f32_lt (f32_mul (Y p) (f32_neg sc)) 0"
    by (intro f32_mul_strictly_negative) simp_all
  then show "f32_lt (Y (scalePoint sc p)) 0"
    by (simp add: scalePoint_def)
qed

theorem scaling_of_segments_witness:
  "scaledSegments (projr (fst (shapeGlyph stubEnv (Some \<lparr>Font = 7, currentVariations = []\<rparr>)
      \<lparr>Font = 7, currentVariations = []\<rparr> [0, 1, 2]
      \<lparr>Glyphs = [], oDirection = 0, oSize = 768\<rparr>
      \<lparr>GlyphID = 65, ClusterIndex = 0, RuneCount = 1, XOffset = 0, YOffset = 0\<rparr>))) =
     [\<lparr>Op = 0, Args = (\<lparr>X = 0x3C449BA6, Y = 0xBCC49BA6\<rparr>, \<lparr>X = 0x3C449BA6, Y = 0xBCC49BA6\<rparr>,
                        \<lparr>X = 0x3C449BA6, Y = 0xBCC49BA6\<rparr>)\<rparr>] \<and>
   f32_lt 0 (Y stubPoint) \<and> f32_lt 0 0x3C449BA6 \<and>
   f32_lt (Y (scalePoint 0x3C449BA6 stubPoint)) 0"
proof -
  let ?F = "\<lparr>Font = 7, currentVariations = []\<rparr>"
  let ?out = "\<lparr>Glyphs = [], oDirection = 0, oSize = 768\<rparr>"
  let ?gl = "\<lparr>GlyphID = 65, ClusterIndex = 0, RuneCount = 1, XOffset = 0, YOffset = 0\<rparr>"
  note t = scaling_of_segments [where env = stubEnv and gf = ?F and f = ?F and out = ?out
      and gl = ?gl and ind = "[0, 1, 2]" and sc = "0x3C449BA6" and p = stubPoint]
  have ok: "\<not> isl (fst (shapeGlyph stubEnv (Some ?F) ?F [0, 1, 2] ?out ?gl))"
    by (simp add: stub_eval shape_eval f32_eval)
  then obtain g1 where g1: "fst (shapeGlyph stubEnv (Some ?F) ?F [0, 1, 2] ?out ?gl) = Inr g1"
    by (cases "fst (shapeGlyph stubEnv (Some ?F) ?F [0, 1, 2] ?out ?gl)") auto
  have pos: "f32_lt 0 (Y stubPoint) \<and> f32_lt 0 0x3C449BA6"
    and big: "f32_le 0x3F800000 (Y stubPoint) \<and> f32_le 0x01000000 0x3C449BA6"
    by (simp_all add: stubPoint_def f32_lt_def f32_le_def f32_key_def f32_isNaN_def f32_mag_def
        f32_sign_def)
  from t g1 have "scaledSegments g1 =
      map (scaleSegment (glyphScale stubEnv ?F ?out)) (glyphSegments stubEnv ?F ?F ?out ?gl)"
    by blast
  then have segs: "scaledSegments g1 =
     [\<lparr>Op = 0, Args = (\<lparr>X = 0x3C449BA6, Y = 0xBCC49BA6\<rparr>, \<lparr>X = 0x3C449BA6, Y = 0xBCC49BA6\<rparr>,
                        \<lparr>X = 0x3C449BA6, Y = 0xBCC49BA6\<rparr>)\<rparr>]"
    by (simp add: stub_eval shape_eval f32_eval)
  from t big have "f32_lt (Y (scalePoint 0x3C449BA6 stubPoint)) 0"
    by blast
  with segs g1 pos show ?thesis by simp
qed



text \<open>
  C4. Claimed: the key holds the size in a fixed-point or decimal form, so that no
  representation of a size makes a lookup miss. The key holds the \<open>float64\<close> itself: a
  key whose size is a NaN is not equal to itself, and two consecutive calls of \<open>shape\<close>
  with this text and face both run the shaper.
\<close>

theorem nan_size_key_differs_from_itself:
  "k_size (outputCacheKey stubEnv
             ((stubFace DirectionLeftToRight)\<lparr>Size := 0x7FF8000000000000\<rparr>) ''AB'')
     = 0x7FF8000000000000 \<and>
   \<not> goTextOutputCacheKey_eq
       (outputCacheKey stubEnv ((stubFace DirectionLeftToRight)\<lparr>Size := 0x7FF8000000000000\<rparr>) ''AB'')
       (outputCacheKey stubEnv ((stubFace DirectionLeftToRight)\<lparr>Size := 0x7FF8000000000000\<rparr>) ''AB'') \<and>
   length (calls (snd (shape stubEnv 2 ''AB''
       ((stubFace DirectionLeftToRight)\<lparr>Size := 0x7FF8000000000000\<rparr>) stubWorld))) = 10 \<and>
   length (calls (snd (shape stubEnv 2 ''AB''
       ((stubFace DirectionLeftToRight)\<lparr>Size := 0x7FF8000000000000\<rparr>)
       (snd (shape stubEnv 2 ''AB''
          ((stubFace DirectionLeftToRight)\<lparr>Size := 0x7FF8000000000000\<rparr>) stubWorld))))) = 20"
  by (simp add: shape_def copyCheck_def stub_source getOrCreate_def shapeCreate_def
        setOutputCache_def outputCacheKey_def goTextOutputCacheKey_eq_def f64_eq_def f64_isNaN_def
        stub_eval shape_eval utf8_eval f32_eval)

text \<open>
  C4, as the code has it: the size in the key is the face's \<open>float64\<close>. Equal keys have
  sizes that are \<open>==\<close>; a key with a size greater than 0 equals itself, and such a size
  is \<open>==\<close> to another exactly when the two have the same bits; a key whose size is a NaN
  equals no key.
\<close>

theorem outputCacheKey_size_raw:
  "k_size (outputCacheKey env face text) = Size face \<and>
   (goTextOutputCacheKey_eq (outputCacheKey env face text) (outputCacheKey env face' text') \<longrightarrow>
      f64_eq (Size face) (Size face')) \<and>
   (f64_positive (Size face) \<longrightarrow>
      goTextOutputCacheKey_eq (outputCacheKey env face text) (outputCacheKey env face text)) \<and>
   (f64_positive (Size face) \<longrightarrow>
      (f64_eq (Size face) (Size face') \<longleftrightarrow> Size face = Size face')) \<and>
   (f64_isNaN (Size face) \<longrightarrow>
      \<not> goTextOutputCacheKey_eq (outputCacheKey env face text) (outputCacheKey env face' text') \<and>
      \<not> goTextOutputCacheKey_eq (outputCacheKey env face' text') (outputCacheKey env face text))"
  by (auto simp: outputCacheKey_def goTextOutputCacheKey_eq_def f64_eq_positive
      f64_positive_not_NaN) (auto simp: f64_eq_def)

theorem outputCacheKey_size_raw_witness:
  "goTextOutputCacheKey_eq (outputCacheKey stubEnv (stubFace DirectionLeftToRight) ''AB'')
     (outputCacheKey stubEnv (stubFace DirectionLeftToRight) ''AB'') \<and>
   \<not> f64_eq 0x4028000000000000 0x402A000000000000 \<and>
   \<not> goTextOutputCacheKey_eq
       (outputCacheKey stubEnv ((stubFace DirectionLeftToRight)\<lparr>Size := 0x7FF8000000000001\<rparr>) ''AB'')
       (outputCacheKey stubEnv ((stubFace DirectionLeftToRight)\<lparr>Size := 0x7FF8000000000000\<rparr>) ''AB'')"
proof -
  have p: "f64_positive (Size (stubFace DirectionLeftToRight))"
    by (simp add: stubFace_def f64_positive_def)
  have s: "Size (stubFace DirectionLeftToRight) = 0x4028000000000000"
    "Size ((stubFace DirectionLeftToRight)\<lparr>Size := 0x402A000000000000\<rparr>) = 0x402A000000000000"
    by (simp_all add: stubFace_def)
  have n: "f64_isNaN (Size ((stubFace DirectionLeftToRight)\<lparr>Size := 0x7FF8000000000001\<rparr>))"
    by (simp add: f64_isNaN_def)
  from outputCacheKey_size_raw [where env = stubEnv and face = "stubFace DirectionLeftToRight"
         and face' = "(stubFace DirectionLeftToRight)\<lparr>Size := 0x402A000000000000\<rparr>"]
       outputCacheKey_size_raw [where env = stubEnv
         and face = "(stubFace DirectionLeftToRight)\<lparr>Size := 0x7FF8000000000001\<rparr>"
         and face' = "(stubFace DirectionLeftToRight)\<lparr>Size := 0x7FF8000000000000\<rparr>"]
       p s n
  show ?thesis by simp
qed

text \<open>
  C5. In the shaping pipeline the sub-runs produced by the segmenter are shaped in reversed
  order when the face's direction is right-to-left, and in the segmenter's own order for
  the left-to-right and top-to-bottom directions; each sub-run reaches the shaper as the
  segmenter made it.
\<close>

theorem shapeImpl_direction_reorder:
  assumes "sources w (Source face) = Some fs" and "faces w (sf fs) = Some f0"
    and "shapeImpl env g text face w = (Inr (outs, gs), w')"
  shows "outs =
           map (\<lambda>input. adjustedOutput env
                  (Shape env (f0\<lparr>currentVariations := faceVariations face\<rparr>) input))
             (if Direction face = DirectionRightToLeft
              then rev (Split env (shapingInput env (sf fs) text face))
              else Split env (shapingInput env (sf fs) text face))"
proof (cases "sources w g")
  case None
  with assms show ?thesis
    by (auto simp: shapeImpl_def segmentedInputs_def Let_def split: if_splits)
next
  case (Some s)
  with assms obtain gfo cs where
    "shapeRuns env gfo (f0\<lparr>currentVariations := faceVariations face\<rparr>) text
       (segmentedInputs env (sf fs) text face) = (Inr (outs, gs), cs)"
    by (auto simp: shapeImpl_def Let_def split: prod.splits)
  from shapeRuns_outputs [OF this] show ?thesis
    by (simp add: segmentedInputs_def Let_def)
qed

theorem shapeImpl_direction_reorder_witness:
  "map (\<lambda>out. map GlyphID (Glyphs out))
     (fst (projr (fst (shapeImpl stubEnv 2 ''AB'' (stubFace DirectionRightToLeft) stubWorld))))
     = [[66], [65]] \<and>
   map (\<lambda>out. map GlyphID (Glyphs out))
     (fst (projr (fst (shapeImpl stubEnv 2 ''AB'' (stubFace DirectionLeftToRight) stubWorld))))
     = [[65], [66]]"
proof -
  have src: "\<And>d. sources stubWorld (Source (stubFace d)) =
      Some \<lparr>sf = 1, metadata = \<lparr>Family = ''Stub'', StyleFlags = 0\<rparr>,
           outputCache = \<lparr>capacity = 512, entries = []\<rparr>, glyphImageCache = None, addr = 2\<rparr>"
    using stub_source by (simp add: stubFace_def)
  have fc: "faces stubWorld (sf \<lparr>sf = 1, metadata = \<lparr>Family = ''Stub'', StyleFlags = 0\<rparr>,
           outputCache = \<lparr>capacity = 512, entries = []\<rparr>, glyphImageCache = None, addr = 2\<rparr>)
      = Some \<lparr>Font = 7, currentVariations = []\<rparr>"
    using stub_face by simp
  have ok: "\<And>d. \<not> isl (fst (shapeImpl stubEnv 2 ''AB'' (stubFace d) stubWorld))"
    by (simp add: stub_eval shape_eval utf8_eval f32_eval)
  have "\<And>d. \<exists>outs gs w'. shapeImpl stubEnv 2 ''AB'' (stubFace d) stubWorld = (Inr (outs, gs), w')"
  proof -
    fix d
    show "\<exists>outs gs w'. shapeImpl stubEnv 2 ''AB'' (stubFace d) stubWorld = (Inr (outs, gs), w')"
      using ok [of d]
      by (cases "shapeImpl stubEnv 2 ''AB'' (stubFace d) stubWorld"; cases "fst (shapeImpl stubEnv 2 ''AB'' (stubFace d) stubWorld)") auto
  qed
  then obtain outsR gsR wR outsL gsL wL where
    r: "shapeImpl stubEnv 2 ''AB'' (stubFace DirectionRightToLeft) stubWorld = (Inr (outsR, gsR), wR)" and
    l: "shapeImpl stubEnv 2 ''AB'' (stubFace DirectionLeftToRight) stubWorld = (Inr (outsL, gsL), wL)"
    by blast
  from shapeImpl_direction_reorder [OF src fc r] shapeImpl_direction_reorder [OF src fc l] r l
  show ?thesis
    by (simp add: stub_eval adjustedOutput_def shapingInput_def utf8_eval)
qed

text \<open>
  C6. Claimed: every operation on a \<open>GoTextFaceSource\<close> copied by value panics, also
  \<open>getOrCreateGlyphImage\<close> and \<open>Metadata\<close>. Only \<open>shape\<close> calls \<open>copyCheck\<close>:
  on the copy at address 3 of the source at address 2, \<open>Metadata\<close> returns the metadata
  and \<open>getOrCreateGlyphImage\<close> returns an image.
\<close>

theorem copy_not_rejected:
  "map_option addr (sources copiedWorld 3) = Some 2 \<and>
   Metadata 3 copiedWorld = Inr \<lparr>Family = ''Stub'', StyleFlags = 0\<rparr> \<and>
   fst (getOrCreateGlyphImage stubEnv 3 (stubFace DirectionLeftToRight) stubKey stubCreate
          copiedWorld) = Inr 9"
  by (simp add: copiedWorld_def stub_source Metadata_def getOrCreateGlyphImage_def sizeCaches_def
      setGlyphImageCache_def setSizeCache_def getOrCreate_def stubCreate_def stubFace_def
      newCache_def f64_eq_def f64_isNaN_def f64_isZero_def Let_def stubEnv_def)

text \<open>
  C6, as the code has it: \<open>shape\<close> on a source whose stored address is not its own
  panics and changes nothing; \<open>Metadata\<close> makes no such check and returns the stored
  metadata.
\<close>

theorem shape_rejects_copy:
  assumes "sources w g = Some s" and "addr s \<noteq> g"
  shows "shape env g text face w = (Inl PanicCopiedByValue, w) \<and> Metadata g w = Inr (metadata s)"
  using assms by (simp add: shape_def copyCheck_def Metadata_def)

theorem shape_rejects_copy_witness:
  "shape stubEnv 3 ''AB'' (stubFace DirectionLeftToRight) copiedWorld
     = (Inl PanicCopiedByValue, copiedWorld) \<and>
   Metadata 3 copiedWorld = Inr \<lparr>Family = ''Stub'', StyleFlags = 0\<rparr>"
proof -
  have s: "sources copiedWorld 3 =
     Some \<lparr>sf = 1, metadata = \<lparr>Family = ''Stub'', StyleFlags = 0\<rparr>,
           outputCache = \<lparr>capacity = 512, entries = []\<rparr>, glyphImageCache = None, addr = 2\<rparr>"
    by (simp add: copiedWorld_def stub_source)
  have a: "addr \<lparr>sf = 1, metadata = \<lparr>Family = ''Stub'', StyleFlags = 0\<rparr>,
           outputCache = \<lparr>capacity = 512, entries = []\<rparr>, glyphImageCache = None, addr = 2\<rparr> \<noteq> 3"
    by simp
  from shape_rejects_copy [OF s a] show ?thesis by simp
qed

text \<open>
  C7. The cluster mapping of a sub-run holds the byte offset of every rune of the whole,
  unsegmented text and, last, the length of the text. A glyph's \<open>startIndex\<close> and
  \<open>endIndex\<close> are the entries of this mapping at the cluster index the shaper reports
  and at the cluster index plus the rune count. When a glyph of any sub-run has a cluster
  index, or a cluster index plus rune count, outside the mapping, \<open>shapeImpl\<close> panics
  and returns no glyphs.
\<close>

theorem shapeImpl_cluster_mapping:
  assumes "sources w (Source face) = Some fs" and "faces w (sf fs) = Some f0"
    and "sources w g = Some s" and "length text < 2 ^ 63"
  shows "length (clusterIndices text) = Suc (length (runesOf text)) \<and>
         last (clusterIndices text) = int (length text) \<and>
         (\<forall>outs gs w'. shapeImpl env g text face w = (Inr (outs, gs), w') \<longrightarrow>
            (\<forall>g1 \<in> set gs.
               0 \<le> sint (ClusterIndex (shapingGlyph g1)) \<and>
               sint (ClusterIndex (shapingGlyph g1)) + sint (RuneCount (shapingGlyph g1))
                 < int (length (clusterIndices text)) \<and>
               startIndex g1 =
                 clusterIndices text ! nat (sint (ClusterIndex (shapingGlyph g1))) \<and>
               endIndex g1 =
                 clusterIndices text !
                   nat (sint (ClusterIndex (shapingGlyph g1)) + sint (RuneCount (shapingGlyph g1))))) \<and>
         ((\<exists>input \<in> set (segmentedInputs env (sf fs) text face).
             \<exists>gl \<in> set (Glyphs (adjustedOutput env
                           (Shape env (f0\<lparr>currentVariations := faceVariations face\<rparr>) input))).
               sint (ClusterIndex gl) < 0 \<or>
               int (length (clusterIndices text)) \<le> sint (ClusterIndex gl) + sint (RuneCount gl)) \<longrightarrow>
            fst (shapeImpl env g text face w) = Inl PanicIndexOutOfRange \<or>
            fst (shapeImpl env g text face w) = Inl PanicNilDereference)"
proof (intro conjI allI impI ballI)
  show "length (clusterIndices text) = Suc (length (runesOf text))"
    by (rule length_clusterIndices)
  show "last (clusterIndices text) = int (length text)"
    by (simp add: clusterIndices_def)
next
  fix outs gs w' g1
  assume r: "shapeImpl env g text face w = (Inr (outs, gs), w')" and g1: "g1 \<in> set gs"
  from shapeImpl_glyphs [OF assms(1,2) r g1] obtain gfo out gl where
    "fst (shapeGlyph env gfo (f0\<lparr>currentVariations := faceVariations face\<rparr>)
            (clusterIndices text) out gl) = Inr g1"
    by blast
  from shapeGlyph_Inr [OF this] have
    sg: "shapingGlyph g1 = gl" and
    a: "0 \<le> sint (ClusterIndex gl)" "sint (ClusterIndex gl) < int (length (clusterIndices text))" and
    b: "0 \<le> sint (ClusterIndex gl + RuneCount gl)"
       "sint (ClusterIndex gl + RuneCount gl) < int (length (clusterIndices text))" and
    si: "startIndex g1 = clusterIndices text ! nat (sint (ClusterIndex gl))" and
    ei: "endIndex g1 = clusterIndices text ! nat (sint (ClusterIndex gl + RuneCount gl))"
    by blast+
  have n: "int (length (clusterIndices text)) \<le> 2 ^ 63"
  proof -
    have "length (rangeOffsets 0 (bytesOf text)) \<le> length (bytesOf text)"
      by (rule length_rangeOffsets_le)
    then show ?thesis using assms(4) by (simp add: clusterIndices_def bytesOf_def)
  qed
  have sum: "sint (ClusterIndex gl + RuneCount gl) = sint (ClusterIndex gl) + sint (RuneCount gl)"
    using n a b by (rule sint_sum_in_range)
  show "0 \<le> sint (ClusterIndex (shapingGlyph g1))" using sg a by simp
  show "sint (ClusterIndex (shapingGlyph g1)) + sint (RuneCount (shapingGlyph g1))
          < int (length (clusterIndices text))" using sg b sum by simp
  show "startIndex g1 = clusterIndices text ! nat (sint (ClusterIndex (shapingGlyph g1)))"
    using sg si by simp
  show "endIndex g1 = clusterIndices text !
          nat (sint (ClusterIndex (shapingGlyph g1)) + sint (RuneCount (shapingGlyph g1)))"
    using sg ei sum by simp
next
  let ?f = "f0\<lparr>currentVariations := faceVariations face\<rparr>"
  let ?n = "int (length (clusterIndices text))"
  assume "\<exists>input \<in> set (segmentedInputs env (sf fs) text face).
             \<exists>gl \<in> set (Glyphs (adjustedOutput env (Shape env ?f input))).
               sint (ClusterIndex gl) < 0 \<or> ?n \<le> sint (ClusterIndex gl) + sint (RuneCount gl)"
  then obtain input gl where
    input: "input \<in> set (segmentedInputs env (sf fs) text face)" and
    gl: "gl \<in> set (Glyphs (adjustedOutput env (Shape env ?f input)))" and
    bad: "sint (ClusterIndex gl) < 0 \<or> ?n \<le> sint (ClusterIndex gl) + sint (RuneCount gl)"
    by blast
  have n: "?n \<le> 2 ^ 63"
  proof -
    have "length (rangeOffsets 0 (bytesOf text)) \<le> length (bytesOf text)"
      by (rule length_rangeOffsets_le)
    then show ?thesis using assms(4) by (simp add: clusterIndices_def bytesOf_def)
  qed
  have "\<not> (0 \<le> sint (ClusterIndex gl) \<and> sint (ClusterIndex gl) < ?n) \<or>
        \<not> (0 \<le> sint (ClusterIndex gl + RuneCount gl) \<and> sint (ClusterIndex gl + RuneCount gl) < ?n)"
  proof (cases "0 \<le> sint (ClusterIndex gl) \<and> sint (ClusterIndex gl) < ?n")
    case True
    with bad have "sint (ClusterIndex gl) + sint (RuneCount gl) < 0 \<or>
        ?n \<le> sint (ClusterIndex gl) + sint (RuneCount gl)" by simp
    with n True have "sint (ClusterIndex gl + RuneCount gl) < 0 \<or>
        ?n \<le> sint (ClusterIndex gl + RuneCount gl)"
      by (intro sint_sum_out_of_range) simp_all
    then show ?thesis by auto
  next
    case False
    then show ?thesis by simp
  qed
  then have "\<And>gfo. isl (fst (shapeGlyph env gfo ?f (clusterIndices text)
                  (adjustedOutput env (Shape env ?f input)) gl))"
    by (rule shapeGlyph_Inl)
  with input gl have "\<And>gfo. isl (fst (shapeRuns env gfo ?f text (segmentedInputs env (sf fs) text face)))"
    by (rule shapeRuns_Inl)
  with shapeImpl_unfold [OF assms(1,2,3)] have "isl (fst (shapeImpl env g text face w))"
    by simp
  then obtain e where "fst (shapeImpl env g text face w) = Inl e"
    by (cases "fst (shapeImpl env g text face w)") auto
  with shapeImpl_error [OF this] show
    "fst (shapeImpl env g text face w) = Inl PanicIndexOutOfRange \<or>
     fst (shapeImpl env g text face w) = Inl PanicNilDereference" by auto
qed

theorem shapeImpl_cluster_mapping_witness:
  "map (\<lambda>g1. (startIndex g1, endIndex g1))
     (snd (projr (fst (shapeImpl stubEnv 2 ''AB'' (stubFace DirectionLeftToRight) stubWorld))))
     = [(0, 1), (1, 2)] \<and>
   fst (shapeImpl overrunEnv 2 ''AB'' (stubFace DirectionLeftToRight) stubWorld)
     = Inl PanicIndexOutOfRange"
proof -
  have len: "length ''AB'' < 2 ^ 63" by simp
  note src = stub_face_source [of DirectionLeftToRight]
  note a = shapeImpl_cluster_mapping [where env = stubEnv, OF src stub_source_face stub_source len]
  note b = shapeImpl_cluster_mapping [where env = overrunEnv, OF src stub_source_face stub_source len]
  from a b show ?thesis
    by (simp add: overrunEnv_def stub_eval shape_eval utf8_eval f32_eval)
qed

text \<open>
  C8. A source made by \<open>newGoTextFaceSource\<close> has one shaping cache, of capacity 512, and
  no image cache. \<open>getOrCreateGlyphImage\<close> adds one image cache, of capacity 128 times
  \<open>glyphVariationCount\<close> of the face, when the face's size has none yet, and adds none
  when the size has one: then it looks the key up in that cache. After the call the size
  has a cache. The call leaves the shaping cache alone, and \<open>shape\<close> leaves the image
  caches alone. The size is not a NaN, and the rasterizer does not write to the sources.
\<close>

theorem glyph_image_cache_per_size:
  assumes "sources w g = Some s" and "\<not> f64_isNaN (Size face)"
    and "\<And>w. sources (snd (create w)) = sources w"
  shows "imageCacheSizes g (snd (getOrCreateGlyphImage env g face key create w)) =
           (case mapFind (Size face) (imageCaches g w) of
              None \<Rightarrow> imageCacheSizes g w @ [(Size face, sint (128 * glyphVariationCount env face))]
            | Some c \<Rightarrow> imageCacheSizes g w) \<and>
         mapFind (Size face) (imageCaches g (snd (getOrCreateGlyphImage env g face key create w)))
           \<noteq> None \<and>
         (\<forall>c. mapFind (Size face) (imageCaches g w) = Some c \<longrightarrow>
            fst (getOrCreateGlyphImage env g face key create w) =
              fst (getOrCreate (=) c key create w)) \<and>
         map_option outputCache (sources (snd (getOrCreateGlyphImage env g face key create w)) g) =
           Some (outputCache s) \<and>
         imageCaches g (snd (shape env g text face w)) = imageCaches g w \<and>
         map_option (\<lambda>s. (outputCache s, glyphImageCache s))
           (sources (snd (newGoTextFaceSource env fp w)) (fst (newGoTextFaceSource env fp w))) =
           Some (newCache 512, None)"
proof -
  let ?k = "Size face"
  let ?old = "imageCaches g w"
  let ?cur = "sizeCaches env s face"
  let ?wa = "setGlyphImageCache g ?cur w"
  let ?new = "newCache (sint (128 * glyphVariationCount env face)) :: (goTextGlyphImageCacheKey, Image) cache"
  have m0: "?old = (case glyphImageCache s of None \<Rightarrow> [] | Some m \<Rightarrow> m)"
    using assms(1) by (simp add: imageCaches_def)
  have s1: "sources ?wa g = Some (s\<lparr>glyphImageCache := Some ?cur\<rparr>)"
    using assms(1) by (simp add: setGlyphImageCache_def)
  note sc = sizeCaches_cases [OF assms(2), where s = s and env = env, folded m0]
  obtain c where c: "mapFind ?k ?cur = Some c" and
    cm: "(mapFind ?k ?old = None \<and> ?cur = ?old @ [(?k, ?new)] \<and> c = ?new) \<or>
         (mapFind ?k ?old = Some c \<and> ?cur = ?old)"
    using sc by (cases "mapFind ?k ?old") auto
  obtain r c' w' where goc: "getOrCreate (=) c key create ?wa = (r, c', w')"
    by (cases "getOrCreate (=) c key create ?wa") auto
  have cap: "capacity c' = capacity c"
    using getOrCreate_capacity [of "(=)" c key create ?wa] goc by simp
  have "w' = (case cacheFind (=) key (entries c) of Some v \<Rightarrow> ?wa | None \<Rightarrow> snd (create ?wa))"
    using getOrCreate_world [of "(=)" c key create ?wa] goc by simp
  then have sw': "sources w' = sources ?wa"
    using assms(3) by (simp split: option.splits)
  let ?res = "getOrCreateGlyphImage env g face key create w"
  have res: "?res = (case r of Inl e \<Rightarrow> (Inl e, w') | Inr img \<Rightarrow> (Inr img, setSizeCache g ?k c' w'))"
    using assms(1) c goc by (simp add: getOrCreateGlyphImage_def Let_def split: sum.splits)
  have fin: "sources (snd ?res) g =
      Some (s\<lparr>glyphImageCache := Some (case r of Inl e \<Rightarrow> ?cur | Inr img \<Rightarrow> mapStore ?k c' ?cur)\<rparr>)"
    using res sw' s1 by (cases r) (simp_all add: setSizeCache_def)
  then have ic: "imageCaches g (snd ?res) = (case r of Inl e \<Rightarrow> ?cur | Inr img \<Rightarrow> mapStore ?k c' ?cur)"
    by (simp add: imageCaches_def)
  have sizes: "map (\<lambda>(k, c). (k, capacity c)) (imageCaches g (snd ?res)) =
      map (\<lambda>(k, c). (k, capacity c)) ?cur"
    using ic mapStore_present_sizes [OF c cap] by (cases r) simp_all
  have A: "imageCacheSizes g (snd ?res) =
      (case mapFind ?k ?old of
         None \<Rightarrow> imageCacheSizes g w @ [(?k, sint (128 * glyphVariationCount env face))]
       | Some c \<Rightarrow> imageCacheSizes g w)"
    using cm sizes by (auto simp: imageCacheSizes_def newCache_def)
  have B: "mapFind ?k (imageCaches g (snd ?res)) \<noteq> None"
    using ic c mapFind_mapStore [OF c, of c'] by (cases r) simp_all
  have C: "\<forall>c0. mapFind ?k ?old = Some c0 \<longrightarrow> fst ?res = fst (getOrCreate (=) c0 key create w)"
  proof (intro allI impI)
    fix c0
    assume c0: "mapFind ?k ?old = Some c0"
    with cm c have "c0 = c" and mm: "?cur = ?old" by auto
    from c0 m0 have "glyphImageCache s = Some ?old"
      by (cases "glyphImageCache s") auto
    with mm assms(1) have "?wa = w" by (simp add: setGlyphImageCache_same)
    with res goc \<open>c0 = c\<close> show "fst ?res = fst (getOrCreate (=) c0 key create w)"
      by (cases r) simp_all
  qed
  have D: "map_option outputCache (sources (snd ?res) g) = Some (outputCache s)"
    using fin by simp
  have E: "map_option (\<lambda>s. (outputCache s, glyphImageCache s))
      (sources (snd (newGoTextFaceSource env fp w)) (fst (newGoTextFaceSource env fp w))) =
      Some (newCache 512, None)"
    by (simp add: newGoTextFaceSource_def)
  from A B C D E shape_imageCaches show ?thesis by blast
qed

theorem glyph_image_cache_per_size_witness:
  "imageCacheSizes 2 (snd (getOrCreateGlyphImage stubEnv 2 (stubFace DirectionLeftToRight)
      stubKey stubCreate stubWorld)) = [(0x4028000000000000, 512)] \<and>
   imageCacheSizes 2 (snd (getOrCreateGlyphImage stubEnv 2 (stubFace DirectionRightToLeft)
      (stubKey\<lparr>gid := 66\<rparr>) stubCreate
      (snd (getOrCreateGlyphImage stubEnv 2 (stubFace DirectionLeftToRight)
         stubKey stubCreate stubWorld)))) = [(0x4028000000000000, 512)] \<and>
   imageCacheSizes 2 (snd (getOrCreateGlyphImage stubEnv 2
      ((stubFace DirectionLeftToRight)\<lparr>Size := 0x402A000000000000\<rparr>) stubKey stubCreate
      (snd (getOrCreateGlyphImage stubEnv 2 (stubFace DirectionLeftToRight)
         stubKey stubCreate stubWorld)))) =
     [(0x4028000000000000, 512), (0x402A000000000000, 512)]"
proof -
  let ?w1 = "snd (getOrCreateGlyphImage stubEnv 2 (stubFace DirectionLeftToRight)
      stubKey stubCreate stubWorld)"
  have fr: "\<And>w. sources (snd (stubCreate w)) = sources w"
    by (simp add: stubCreate_def)
  have n1: "\<And>d. \<not> f64_isNaN (Size (stubFace d))"
    by (simp add: stubFace_def f64_isNaN_def)
  have n2: "\<not> f64_isNaN (Size ((stubFace DirectionLeftToRight)\<lparr>Size := 0x402A000000000000\<rparr>))"
    by (simp add: f64_isNaN_def)
  have s1: "sources ?w1 2 =
     Some \<lparr>sf = 1, metadata = \<lparr>Family = ''Stub'', StyleFlags = 0\<rparr>,
           outputCache = \<lparr>capacity = 512, entries = []\<rparr>,
           glyphImageCache = Some [(0x4028000000000000,
              \<lparr>capacity = 512, entries = [(stubKey, 9)]\<rparr>)], addr = 2\<rparr>"
    by (simp add: getOrCreateGlyphImage_def stub_source sizeCaches_def setGlyphImageCache_def
        setSizeCache_def getOrCreate_def stubCreate_def stubFace_def newCache_def stubEnv_def
        f64_eq_def f64_isNaN_def f64_isZero_def Let_def)
  have i0: "imageCaches 2 stubWorld = []"
    by (simp add: imageCaches_def stub_source)
  have i1: "imageCaches 2 ?w1 =
      [(0x4028000000000000, \<lparr>capacity = 512, entries = [(stubKey, 9)]\<rparr>)]"
    by (simp add: imageCaches_def s1)
  note a = glyph_image_cache_per_size [OF stub_source n1 fr, where env = stubEnv and key = stubKey,
      of DirectionLeftToRight, THEN conjunct1]
  note b = glyph_image_cache_per_size [OF s1 n1 fr, where env = stubEnv
      and key = "stubKey\<lparr>gid := 66\<rparr>", of DirectionRightToLeft, THEN conjunct1]
  note c = glyph_image_cache_per_size [OF s1 n2 fr, where env = stubEnv and key = stubKey,
      THEN conjunct1]
  have sz: "\<And>d. Size (stubFace d) = 0x4028000000000000"
    by (simp add: stubFace_def)
  have cnt: "\<And>f. glyphVariationCount stubEnv f = 4"
    by (simp add: stubEnv_def)
  have ics0: "imageCacheSizes 2 stubWorld = []"
    by (simp add: imageCacheSizes_def i0)
  from a have a': "imageCacheSizes 2 ?w1 = [(0x4028000000000000, 512)]"
    by (simp add: i0 ics0 sz cnt)
  from b a' have b': "imageCacheSizes 2 (snd (getOrCreateGlyphImage stubEnv 2
      (stubFace DirectionRightToLeft) (stubKey\<lparr>gid := 66\<rparr>) stubCreate ?w1))
      = [(0x4028000000000000, 512)]"
    by (simp add: i1 sz f64_eq_def f64_isNaN_def f64_isZero_def)
  from c a' have c': "imageCacheSizes 2 (snd (getOrCreateGlyphImage stubEnv 2
      ((stubFace DirectionLeftToRight)\<lparr>Size := 0x402A000000000000\<rparr>) stubKey stubCreate ?w1))
      = [(0x4028000000000000, 512), (0x402A000000000000, 512)]"
    by (simp add: i1 cnt f64_eq_def f64_isNaN_def f64_isZero_def)
  from a' b' c' show ?thesis by simp
qed

text \<open>
  C9. For every glyph that \<open>shapeImpl\<close> produces, \<open>startIndex\<close> and \<open>endIndex\<close>
  are byte offsets into the whole input text, between 0 and the length of the text in
  bytes: \<open>startIndex\<close> is the offset at which the rune numbered by the cluster index
  starts, \<open>endIndex\<close> the one at which the rune numbered by the cluster index plus the
  rune count starts. The offsets do not depend on the glyph's sub-run.
\<close>

theorem shapeImpl_byte_offsets:
  assumes "sources w (Source face) = Some fs" and "faces w (sf fs) = Some f0"
    and "shapeImpl env g text face w = (Inr (outs, gs), w')" and "g1 \<in> set gs"
  shows "0 \<le> startIndex g1 \<and> startIndex g1 \<le> int (length text) \<and>
         0 \<le> endIndex g1 \<and> endIndex g1 \<le> int (length text) \<and>
         drop (nat (startIndex g1)) (bytesOf text) =
           dropRunes (nat (sint (ClusterIndex (shapingGlyph g1)))) (bytesOf text) \<and>
         drop (nat (endIndex g1)) (bytesOf text) =
           dropRunes (nat (sint (ClusterIndex (shapingGlyph g1) + RuneCount (shapingGlyph g1))))
             (bytesOf text)"
proof -
  from shapeImpl_glyphs [OF assms] obtain gfo out gl where
    "fst (shapeGlyph env gfo (f0\<lparr>currentVariations := faceVariations face\<rparr>)
            (clusterIndices text) out gl) = Inr g1"
    by blast
  from shapeGlyph_Inr [OF this] have
    sg: "shapingGlyph g1 = gl" and
    a: "0 \<le> sint (ClusterIndex gl)" "sint (ClusterIndex gl) < int (length (clusterIndices text))" and
    b: "0 \<le> sint (ClusterIndex gl + RuneCount gl)"
       "sint (ClusterIndex gl + RuneCount gl) < int (length (clusterIndices text))" and
    si: "startIndex g1 = clusterIndices text ! nat (sint (ClusterIndex gl))" and
    ei: "endIndex g1 = clusterIndices text ! nat (sint (ClusterIndex gl + RuneCount gl))"
    by blast+
  from a have "nat (sint (ClusterIndex gl)) < length (clusterIndices text)" by simp
  from clusterIndices_nth [OF this] si sg have start:
    "0 \<le> startIndex g1 \<and> startIndex g1 \<le> int (length text) \<and>
     drop (nat (startIndex g1)) (bytesOf text) =
       dropRunes (nat (sint (ClusterIndex (shapingGlyph g1)))) (bytesOf text)"
    by simp
  from b have "nat (sint (ClusterIndex gl + RuneCount gl)) < length (clusterIndices text)" by simp
  from clusterIndices_nth [OF this] ei sg have
    "0 \<le> endIndex g1 \<and> endIndex g1 \<le> int (length text) \<and>
     drop (nat (endIndex g1)) (bytesOf text) =
       dropRunes (nat (sint (ClusterIndex (shapingGlyph g1) + RuneCount (shapingGlyph g1))))
         (bytesOf text)"
    by simp
  with start show ?thesis by blast
qed

theorem shapeImpl_byte_offsets_witness:
  "map (\<lambda>g1. (startIndex g1, endIndex g1))
     (snd (projr (fst (shapeImpl stubEnv 2 [CHR 0xC3, CHR 0xA9, CHR ''A'']
        (stubFace DirectionLeftToRight) stubWorld))))
     = [(0, 2), (2, 3)] \<and>
   runesOf [CHR 0xC3, CHR 0xA9, CHR ''A''] = [0xE9, 0x41]"
proof -
  let ?text = "[CHR 0xC3, CHR 0xA9, CHR ''A'']"
  have ok: "\<not> isl (fst (shapeImpl stubEnv 2 ?text (stubFace DirectionLeftToRight) stubWorld))"
    by (simp add: stub_eval shape_eval utf8_eval f32_eval)
  then obtain outs gs w' where
    r: "shapeImpl stubEnv 2 ?text (stubFace DirectionLeftToRight) stubWorld = (Inr (outs, gs), w')"
    by (cases "shapeImpl stubEnv 2 ?text (stubFace DirectionLeftToRight) stubWorld";
        cases "fst (shapeImpl stubEnv 2 ?text (stubFace DirectionLeftToRight) stubWorld)") auto
  then have "gs \<noteq> []"
    by (auto simp add: stub_eval shape_eval utf8_eval f32_eval)
  then have "last gs \<in> set gs" by simp
  from shapeImpl_byte_offsets [OF stub_face_source stub_source_face r this] r
  show ?thesis
    by (auto simp add: stub_eval shape_eval utf8_eval f32_eval)
qed

text \<open>
  C10. \<open>NewGoTextFaceSourcesFromCollection\<close> is all-or-nothing. When the font of some
  loader fails to parse, it returns the \<open>nil\<close> slice with the error of a failing loader,
  never the sources made so far. When every font parses, it returns one source per loader,
  in the loaders' order, each at an address of its own, holding the face of its loader's
  font and a new, empty shaping cache of capacity 512.
\<close>

theorem collection_all_or_nothing:
  assumes "toFontResource source = Inr src" and "NewLoaders env src = Inr ls"
  shows "((\<exists>l \<in> set ls. isl (NewFont env l)) \<longrightarrow>
            (\<exists>e. fst (NewGoTextFaceSourcesFromCollection env source w) = (None, Some e) \<and>
                 (\<exists>l \<in> set ls. NewFont env l = Inl e))) \<and>
         ((\<forall>l \<in> set ls. \<not> isl (NewFont env l)) \<longrightarrow>
            fst (NewGoTextFaceSourcesFromCollection env source w) =
              (Some (map (\<lambda>j. nextFree w + 2 * j + 1) [0 ..< length ls]), None) \<and>
            (\<forall>j < length ls.
               \<exists>s. sources (snd (NewGoTextFaceSourcesFromCollection env source w))
                      (nextFree w + 2 * j + 1) = Some s \<and>
                   addr s = nextFree w + 2 * j + 1 \<and> outputCache s = newCache 512 \<and>
                   glyphImageCache s = None \<and> sf s = nextFree w + 2 * j \<and>
                   faces (snd (NewGoTextFaceSourcesFromCollection env source w)) (sf s) =
                     Some \<lparr>Font = projr (NewFont env (ls ! j)), currentVariations = []\<rparr>))"
proof -
  have eq: "NewGoTextFaceSourcesFromCollection env source w =
      collectionLoop env 0 ls (replicate (length ls) 0) w"
    using assms by (simp add: NewGoTextFaceSourcesFromCollection_def)
  show ?thesis
  proof (intro conjI impI allI)
    assume "\<exists>l \<in> set ls. isl (NewFont env l)"
    from collectionLoop_fail [OF this] eq
    show "\<exists>e. fst (NewGoTextFaceSourcesFromCollection env source w) = (None, Some e) \<and>
              (\<exists>l \<in> set ls. NewFont env l = Inl e)" by simp
  next
    assume ok: "\<forall>l \<in> set ls. \<not> isl (NewFont env l)"
    from collectionLoop_ok [OF ok, of "replicate (length ls) 0" 0 w] eq
    show "fst (NewGoTextFaceSourcesFromCollection env source w) =
        (Some (map (\<lambda>j. nextFree w + 2 * j + 1) [0 ..< length ls]), None)" by simp
  next
    fix j
    assume ok: "\<forall>l \<in> set ls. \<not> isl (NewFont env l)" and j: "j < length ls"
    from collectionLoop_new [OF ok j] eq
    show "\<exists>s. sources (snd (NewGoTextFaceSourcesFromCollection env source w))
                 (nextFree w + 2 * j + 1) = Some s \<and>
              addr s = nextFree w + 2 * j + 1 \<and> outputCache s = newCache 512 \<and>
              glyphImageCache s = None \<and> sf s = nextFree w + 2 * j \<and>
              faces (snd (NewGoTextFaceSourcesFromCollection env source w)) (sf s) =
                Some \<lparr>Font = projr (NewFont env (ls ! j)), currentVariations = []\<rparr>" by simp
  qed
qed

theorem collection_all_or_nothing_witness:
  "fst (NewGoTextFaceSourcesFromCollection stubEnv (Resource ''AB'') stubWorld)
     = (Some [4, 6], None) \<and>
   fst (NewGoTextFaceSourcesFromCollection stubEnv
          (Resource [CHR ''A'', CHR 0x00, CHR ''B'']) stubWorld)
     = (None, Some (ErrParse ''font''))"
proof -
  have r1: "toFontResource (Resource ''AB'') = Inr ''AB''"
    and r2: "toFontResource (Resource [CHR ''A'', CHR 0x00, CHR ''B'']) = Inr [CHR ''A'', CHR 0x00, CHR ''B'']"
    by (simp_all add: toFontResource_def)
  have l1: "NewLoaders stubEnv ''AB'' = Inr [65, 66]"
    and l2: "NewLoaders stubEnv [CHR ''A'', CHR 0x00, CHR ''B''] = Inr [65, 0, 66]"
    by (simp_all add: stubEnv_def)
  have n: "nextFree stubWorld = 3"
    by (simp add: stubWorld_def newGoTextFaceSource_def)
  from collection_all_or_nothing [OF r1 l1, of stubWorld]
       collection_all_or_nothing [OF r2 l2, of stubWorld] n
  show ?thesis
    by (auto simp add: stubEnv_def upt_rec)
qed

end
